theory Spec2Isabelle
  imports Main
begin

section \<open>JavaScript values and strings\<close>

text \<open>
  The script runs on the Apps Script JavaScript runtime. A sheet cell, a script property
  and the optional base date are JavaScript values. Numbers are modelled by the integral
  doubles (\<open>Num\<close>) and \<open>NaN\<close>; a \<open>Date\<close> object is modelled by its time value,
  milliseconds since the epoch, \<open>None\<close> standing for the NaN time value of an
  Invalid Date; the time value of a Date object is within the range of \<open>TimeClip\<close>.
  Strings are sequences of code units below 256 (the Latin-1 range).
\<close>

datatype jsval =
    Undefined
  | Null
  | Bool bool
  | Num int
  | NaN
  | Str string
  | DateObj "int option"

datatype error =
    TypeError string
  | Error string

type_synonym timevalue = "int option"

type_synonym sheetRow = "jsval list"

text \<open>
  The services of the host that the script reads: the clock behind \<open>new Date()\<close>, the
  local time zone adjustment of the runtime, \<open>Date.parse\<close>, \<open>Date.prototype.toString\<close>,
  the exponent notation in which \<open>Number.prototype.toString\<close> prints a number of
  magnitude \<open>10^21\<close> or more (such as \<open>1e+21\<close>; its digits depend on the binary
  representation of the number), \<open>Utilities.formatDate\<close> at the script time zone, and the
  script properties.
\<close>

record env =
  now :: int
  localTZA :: "int \<Rightarrow> bool \<Rightarrow> int"
  dateParse :: "string \<Rightarrow> timevalue"
  dateToString :: "timevalue \<Rightarrow> string"
  exponentToString :: "int \<Rightarrow> string"
  formatDate :: "timevalue \<Rightarrow> string \<Rightarrow> error + string"
  getProperty :: "string \<Rightarrow> string option"

subsection \<open>Truthiness, property access, conversion to string\<close>

fun truthy :: "jsval \<Rightarrow> bool" where
  "truthy Undefined = False"
| "truthy Null = False"
| "truthy (Bool b) = b"
| "truthy (Num n) = (n \<noteq> 0)"
| "truthy NaN = False"
| "truthy (Str s) = (s \<noteq> [])"
| "truthy (DateObj t) = True"

text \<open>\<open>a || b\<close>\<close>

definition js_or :: "jsval \<Rightarrow> jsval \<Rightarrow> jsval" where
  "js_or a b = (if truthy a then a else b)"

text \<open>\<open>k[i]\<close> on an array: reading past the end gives \<open>undefined\<close>.\<close>

definition idx :: "sheetRow \<Rightarrow> nat \<Rightarrow> jsval" where
  "idx k i = (if i < length k then k ! i else Undefined)"

function digits :: "nat \<Rightarrow> string" where
  "digits n = (if n < 10 then [char_of (48 + n)] else digits (n div 10) @ [char_of (48 + n mod 10)])"
  by pat_completeness auto
termination
  by (relation "measure id") auto

declare digits.simps [simp del]

text \<open>
  \<open>Number.prototype.toString\<close> on an integral number: the decimal digits below \<open>10^21\<close>
  in magnitude, the exponent notation of the host from there on.
\<close>

definition numberToString :: "env \<Rightarrow> int \<Rightarrow> string" where
  "numberToString e n =
     (if \<bar>n\<bar> < 10 ^ 21
      then (if n < 0 then CHR ''-'' # digits (nat (- n)) else digits (nat n))
      else exponentToString e n)"

text \<open>\<open>v.toString()\<close>: a method call, so it throws on \<open>undefined\<close> and \<open>null\<close>.\<close>

fun toString_method :: "env \<Rightarrow> jsval \<Rightarrow> error + string" where
  "toString_method e Undefined = Inl (TypeError ''Cannot read properties of undefined'')"
| "toString_method e Null = Inl (TypeError ''Cannot read properties of null'')"
| "toString_method e (Bool b) = Inr (if b then ''true'' else ''false'')"
| "toString_method e (Num n) = Inr (numberToString e n)"
| "toString_method e NaN = Inr ''NaN''"
| "toString_method e (Str s) = Inr s"
| "toString_method e (DateObj t) = Inr (dateToString e t)"

text \<open>The conversion of a template literal, \<open>`${v}`\<close>, which never throws on these values.\<close>

fun ToString :: "env \<Rightarrow> jsval \<Rightarrow> string" where
  "ToString e Undefined = ''undefined''"
| "ToString e Null = ''null''"
| "ToString e (Bool b) = (if b then ''true'' else ''false'')"
| "ToString e (Num n) = numberToString e n"
| "ToString e NaN = ''NaN''"
| "ToString e (Str s) = s"
| "ToString e (DateObj t) = dateToString e t"

subsection \<open>Character classes, trim, toLowerCase\<close>

definition isDigit :: "char \<Rightarrow> bool" where
  "isDigit c = (c \<in> set ''0123456789'')"

text \<open>
  The white space and line terminators of ECMAScript below U+0100: TAB, LF, VT, FF, CR,
  SPACE and NO-BREAK SPACE. \<open>String.prototype.trim\<close> and the class \<open>\s\<close> share the set.
\<close>

definition isSpace :: "char \<Rightarrow> bool" where
  "isSpace c = (of_char c \<in> {9, 10, 11, 12, 13, 32, 160 :: nat})"

definition trim :: "string \<Rightarrow> string" where
  "trim s = rev (dropWhile isSpace (rev (dropWhile isSpace s)))"

definition lowerChar :: "char \<Rightarrow> char" where
  "lowerChar c = (let n = of_char c :: nat in
     if (65 \<le> n \<and> n \<le> 90) \<or> (192 \<le> n \<and> n \<le> 222 \<and> n \<noteq> 215) then char_of (n + 32) else c)"

definition toLowerCase :: "string \<Rightarrow> string" where
  "toLowerCase s = map lowerChar s"

text \<open>\<open>parseInt(s, 10)\<close> on a string of decimal digits.\<close>

definition parseInt :: "string \<Rightarrow> int" where
  "parseInt s = foldl (\<lambda>acc c. 10 * acc + (int (of_char c) - 48)) 0 s"

section \<open>Regular expressions\<close>

text \<open>
  The patterns of the script use character classes, sequencing, bounded repetition and
  \<open>+\<close>, anchored at both ends. A pattern is matched by taking derivatives.
\<close>

datatype regex =
    Fail
  | Empty
  | Class "char \<Rightarrow> bool"
  | Cat regex regex
  | Or regex regex
  | Many regex

fun nullable :: "regex \<Rightarrow> bool" where
  "nullable Fail = False"
| "nullable Empty = True"
| "nullable (Class p) = False"
| "nullable (Cat r s) = (nullable r \<and> nullable s)"
| "nullable (Or r s) = (nullable r \<or> nullable s)"
| "nullable (Many r) = True"

fun deriv :: "char \<Rightarrow> regex \<Rightarrow> regex" where
  "deriv c Fail = Fail"
| "deriv c Empty = Fail"
| "deriv c (Class p) = (if p c then Empty else Fail)"
| "deriv c (Cat r s) =
     (if nullable r then Or (Cat (deriv c r) s) (deriv c s) else Cat (deriv c r) s)"
| "deriv c (Or r s) = Or (deriv c r) (deriv c s)"
| "deriv c (Many r) = Cat (deriv c r) (Many r)"

text \<open>\<open>/^r$/.test(s)\<close>\<close>

fun test :: "regex \<Rightarrow> string \<Rightarrow> bool" where
  "test r [] = nullable r"
| "test r (c # cs) = test (deriv c r) cs"

text \<open>\<open>r+\<close>, \<open>r?\<close> and the literal character.\<close>

definition Some1 :: "regex \<Rightarrow> regex" where
  "Some1 r = Cat r (Many r)"

definition Opt :: "regex \<Rightarrow> regex" where
  "Opt r = Or r Empty"

definition Lit :: "char \<Rightarrow> regex" where
  "Lit c = Class (\<lambda>x. x = c)"

section \<open>Dates (ECMA-262, Date objects)\<close>

definition msPerDay :: int where
  "msPerDay = 86400000"

definition Day :: "int \<Rightarrow> int" where
  "Day t = t div msPerDay"

definition TimeWithinDay :: "int \<Rightarrow> int" where
  "TimeWithinDay t = t mod msPerDay"

definition DaysInYear :: "int \<Rightarrow> int" where
  "DaysInYear y =
     (if y mod 4 \<noteq> 0 then 365 else if y mod 100 \<noteq> 0 then 366
      else if y mod 400 \<noteq> 0 then 365 else 366)"

definition DayFromYear :: "int \<Rightarrow> int" where
  "DayFromYear y =
     365 * (y - 1970) + (y - 1969) div 4 - (y - 1901) div 100 + (y - 1601) div 400"

text \<open>
  The year of a day number is the largest \<open>y\<close> with \<open>DayFromYear y \<le> d\<close>; it is computed
  from the mean length of a Gregorian year and corrected by at most one.
\<close>

definition YearFromDay :: "int \<Rightarrow> int" where
  "YearFromDay d =
     (let y0 = 1970 + (400 * d) div 146097
      in if DayFromYear (y0 + 1) \<le> d then y0 + 1
         else if DayFromYear y0 \<le> d then y0 else y0 - 1)"

definition YearFromTime :: "int \<Rightarrow> int" where
  "YearFromTime t = YearFromDay (Day t)"

definition InLeapYear :: "int \<Rightarrow> int" where
  "InLeapYear t = (if DaysInYear (YearFromTime t) = 366 then 1 else 0)"

definition DayWithinYear :: "int \<Rightarrow> int" where
  "DayWithinYear t = Day t - DayFromYear (YearFromTime t)"

text \<open>The day within the year on which month \<open>m\<close> (0 to 11) starts.\<close>

definition monthStart :: "int \<Rightarrow> int \<Rightarrow> int" where
  "monthStart m leap =
     (if m = 0 then 0 else if m = 1 then 31 else if m = 2 then 59 + leap
      else if m = 3 then 90 + leap else if m = 4 then 120 + leap
      else if m = 5 then 151 + leap else if m = 6 then 181 + leap
      else if m = 7 then 212 + leap else if m = 8 then 243 + leap
      else if m = 9 then 273 + leap else if m = 10 then 304 + leap
      else 334 + leap)"

definition MonthFromTime :: "int \<Rightarrow> int" where
  "MonthFromTime t =
     (let d = DayWithinYear t; leap = InLeapYear t
      in if d < 31 then 0 else if d < 59 + leap then 1 else if d < 90 + leap then 2
         else if d < 120 + leap then 3 else if d < 151 + leap then 4
         else if d < 181 + leap then 5 else if d < 212 + leap then 6
         else if d < 243 + leap then 7 else if d < 273 + leap then 8
         else if d < 304 + leap then 9 else if d < 334 + leap then 10 else 11)"

definition DateFromTime :: "int \<Rightarrow> int" where
  "DateFromTime t = DayWithinYear t - monthStart (MonthFromTime t) (InLeapYear t) + 1"

definition HourFromTime :: "int \<Rightarrow> int" where
  "HourFromTime t = (t div 3600000) mod 24"

definition MinFromTime :: "int \<Rightarrow> int" where
  "MinFromTime t = (t div 60000) mod 60"

definition SecFromTime :: "int \<Rightarrow> int" where
  "SecFromTime t = (t div 1000) mod 60"

definition msFromTime :: "int \<Rightarrow> int" where
  "msFromTime t = t mod 1000"

definition LocalTime :: "env \<Rightarrow> int \<Rightarrow> int" where
  "LocalTime e t = t + localTZA e t True"

definition UTC :: "env \<Rightarrow> int \<Rightarrow> int" where
  "UTC e t = t - localTZA e t False"

definition MakeTime :: "int \<Rightarrow> int \<Rightarrow> int \<Rightarrow> int \<Rightarrow> int" where
  "MakeTime h m s ms = h * 3600000 + m * 60000 + s * 1000 + ms"

text \<open>
  \<open>MakeDay\<close> finds the first day of month \<open>mn\<close> of year \<open>ym\<close> and counts on from it, so a
  day of the month that is out of range rolls over into the neighbouring months.
\<close>

definition MakeDay :: "int \<Rightarrow> int \<Rightarrow> int \<Rightarrow> int" where
  "MakeDay year month date =
     (let ym = year + month div 12; mn = month mod 12
      in DayFromYear ym + monthStart mn (if DaysInYear ym = 366 then 1 else 0) + date - 1)"

definition MakeDate :: "int \<Rightarrow> int \<Rightarrow> int" where
  "MakeDate day time = day * msPerDay + time"

definition TimeClip :: "int \<Rightarrow> timevalue" where
  "TimeClip t = (if \<bar>t\<bar> > 8640000000000000 then None else Some t)"

subsection \<open>The Date constructor and methods, on time values\<close>

text \<open>\<open>new Date()\<close>\<close>

definition Date_now :: "env \<Rightarrow> timevalue" where
  "Date_now e = Some (now e)"

text \<open>
  \<open>new Date(v)\<close>: the time value of a Date is copied, a string is parsed, and any other
  value is converted to a number and clipped.
\<close>

definition Date_of :: "env \<Rightarrow> jsval \<Rightarrow> timevalue" where
  "Date_of e v =
     (case v of
        DateObj t \<Rightarrow> t
      | Str s \<Rightarrow> dateParse e s
      | Undefined \<Rightarrow> None
      | Null \<Rightarrow> TimeClip 0
      | Bool b \<Rightarrow> TimeClip (if b then 1 else 0)
      | Num n \<Rightarrow> TimeClip n
      | NaN \<Rightarrow> None)"

text \<open>\<open>new Date(year, month, day)\<close>, in local time.\<close>

definition Date_ymd :: "env \<Rightarrow> int \<Rightarrow> int \<Rightarrow> int \<Rightarrow> timevalue" where
  "Date_ymd e y m dt =
     (let yr = (if 0 \<le> y \<and> y \<le> 99 then 1900 + y else y)
      in TimeClip (UTC e (MakeDate (MakeDay yr m dt) (MakeTime 0 0 0 0))))"

text \<open>\<open>d.setHours(h, m, s, ms)\<close>: the new time value of \<open>d\<close>.\<close>

definition setHours :: "env \<Rightarrow> timevalue \<Rightarrow> int \<Rightarrow> int \<Rightarrow> int \<Rightarrow> int \<Rightarrow> timevalue" where
  "setHours e tv h m s ms =
     (case tv of
        None \<Rightarrow> None
      | Some t \<Rightarrow> TimeClip (UTC e (MakeDate (Day (LocalTime e t)) (MakeTime h m s ms))))"

text \<open>\<open>d.getDate()\<close>, NaN on an Invalid Date.\<close>

definition getDate :: "env \<Rightarrow> timevalue \<Rightarrow> int option" where
  "getDate e tv = (case tv of None \<Rightarrow> None | Some t \<Rightarrow> Some (DateFromTime (LocalTime e t)))"

text \<open>\<open>d.setDate(dt)\<close>: the new time value of \<open>d\<close>.\<close>

definition setDate :: "env \<Rightarrow> timevalue \<Rightarrow> int option \<Rightarrow> timevalue" where
  "setDate e tv dt =
     (case tv of
        None \<Rightarrow> None
      | Some t0 \<Rightarrow>
          (case dt of
             None \<Rightarrow> None
           | Some d \<Rightarrow>
               (let t = LocalTime e t0
                in TimeClip (UTC e (MakeDate (MakeDay (YearFromTime t) (MonthFromTime t) d)
                                             (TimeWithinDay t))))))"

text \<open>\<open>a >= b\<close> and \<open>a <= b\<close> on Date objects compare the time values; NaN compares false.\<close>

definition date_ge :: "timevalue \<Rightarrow> timevalue \<Rightarrow> bool" where
  "date_ge a b = (case a of None \<Rightarrow> False | Some x \<Rightarrow> (case b of None \<Rightarrow> False | Some y \<Rightarrow> x \<ge> y))"

definition date_le :: "timevalue \<Rightarrow> timevalue \<Rightarrow> bool" where
  "date_le a b = (case a of None \<Rightarrow> False | Some x \<Rightarrow> (case b of None \<Rightarrow> False | Some y \<Rightarrow> x \<le> y))"

section \<open>The script\<close>

text \<open>
  A function of the script that can throw returns \<open>error + 'a\<close>; \<open>bindE\<close> sequences two
  such steps, the first exception ending the evaluation. Isabelle has no names that end in
  an underscore, so the functions \<open>parseBaseDate_\<close>, \<open>getNextUpcomingRow_\<close> and so on of
  the script are written \<open>parseBaseDate'\<close>, \<open>getNextUpcomingRow'\<close> and so on.
\<close>

definition bindE :: "error + 'a \<Rightarrow> ('a \<Rightarrow> error + 'b) \<Rightarrow> error + 'b" where
  "bindE m f = (case m of Inl err \<Rightarrow> Inl err | Inr x \<Rightarrow> f x)"

text \<open>
  \<open>getSheetId_\<close>: the property \<open>SHEET_ID\<close>, an exception when it is missing or empty. The
  arrow in the message of the source, a character above U+00FF, is written \<open>->\<close>.
\<close>

definition getSheetId' :: "env \<Rightarrow> error + string" where
  "getSheetId' e =
     (case getProperty e ''SHEET_ID'' of
        None \<Rightarrow> Inl (Error ''Missing script property SHEET_ID. Set it in Project Settings -> Script properties.'')
      | Some sheetId \<Rightarrow>
          if sheetId = [] then Inl (Error ''Missing script property SHEET_ID. Set it in Project Settings -> Script properties.'')
          else Inr sheetId)"

subsection \<open>Schedule lookup\<close>

text \<open>
  The two patterns of \<open>parseBaseDate_\<close>:
  \<^verbatim>\<open>/^(\d{1,2})[\/\-](\d{1,2})[\/\-](\d{2,4})$/\<close> and
  \<^verbatim>\<open>/^(\d{4})-(\d{2})-(\d{2})$/\<close>.
\<close>

definition digit :: regex where
  "digit = Class isDigit"

definition slashOrDash :: regex where
  "slashOrDash = Class (\<lambda>c. c = CHR ''/'' \<or> c = CHR ''-'')"

definition digits_1_2 :: regex where
  "digits_1_2 = Cat digit (Opt digit)"

definition digits_2_4 :: regex where
  "digits_2_4 = Cat digit (Cat digit (Opt (Cat digit (Opt digit))))"

definition slashDate_rx :: regex where
  "slashDate_rx =
     Cat digits_1_2 (Cat slashOrDash (Cat digits_1_2 (Cat slashOrDash digits_2_4)))"

definition isoDate_rx :: regex where
  "isoDate_rx =
     Cat (Cat digit (Cat digit (Cat digit digit)))
       (Cat (Lit (CHR ''-'')) (Cat (Cat digit digit) (Cat (Lit (CHR ''-'')) (Cat digit digit))))"

text \<open>
  In both patterns the three groups are runs of digits and the two separators are single
  characters that are not digits, so on a string that matches, the groups are the three
  maximal runs of digits.
\<close>

definition groups3 :: "string \<Rightarrow> string \<times> string \<times> string" where
  "groups3 s =
     (let g1 = takeWhile isDigit s; r1 = drop 1 (dropWhile isDigit s);
          g2 = takeWhile isDigit r1; r2 = drop 1 (dropWhile isDigit r1)
      in (g1, g2, r2))"

text \<open>\<open>s.match(r)\<close> for these patterns: \<open>null\<close>, or the three groups.\<close>

definition match3 :: "regex \<Rightarrow> string \<Rightarrow> (string \<times> string \<times> string) option" where
  "match3 r s = (if test r s then Some (groups3 s) else None)"

text \<open>\<open>d.getTime()\<close>, a number value.\<close>

definition getTime :: "timevalue \<Rightarrow> jsval" where
  "getTime tv = (case tv of None \<Rightarrow> NaN | Some t \<Rightarrow> Num t)"

definition parseBaseDate' :: "env \<Rightarrow> jsval \<Rightarrow> error + timevalue" where
  "parseBaseDate' e optDate =
     (if \<not> truthy optDate then Inr (setHours e (Date_now e) 12 0 0 0)
      else case optDate of
        DateObj tv \<Rightarrow> Inr (setHours e (Date_of e (getTime tv)) 12 0 0 0)
      | _ \<Rightarrow>
        bindE (toString_method e (js_or optDate (Str []))) (\<lambda>s0.
          let s = trim s0 in
          if s = [] then Inr (setHours e (Date_now e) 12 0 0 0)
          else case match3 slashDate_rx s of
            Some (m1, m2, m3) \<Rightarrow>
              (let month = parseInt m1 - 1; day = parseInt m2; year = parseInt m3;
                   year = (if year < 100 then year + 2000 else year)
               in Inr (setHours e (Date_ymd e year month day) 12 0 0 0))
          | None \<Rightarrow>
             (case match3 isoDate_rx s of
                Some (iso1, iso2, iso3) \<Rightarrow>
                  (let y = parseInt iso1; mth = parseInt iso2 - 1; dy = parseInt iso3
                   in Inr (setHours e (Date_ymd e y mth dy) 12 0 0 0))
              | None \<Rightarrow>
                 (let parsedGeneric = Date_of e (Str s)
                  in if parsedGeneric \<noteq> None then Inr (setHours e parsedGeneric 12 0 0 0)
                     else Inr (setHours e (Date_now e) 12 0 0 0)))))"

text \<open>The loop of \<open>getNextUpcomingRow_\<close>, from row \<open>i\<close> on.\<close>

function scanRows :: "env \<Rightarrow> timevalue \<Rightarrow> timevalue \<Rightarrow> sheetRow list \<Rightarrow> nat \<Rightarrow> sheetRow option"
  where
  "scanRows e today maxDate data i =
     (if i < length data then
        (let k = data ! i; rowDate = Date_of e (idx k 0)
         in if date_ge rowDate today \<and> date_le rowDate maxDate then Some k
            else scanRows e today maxDate data (i + 1))
      else None)"
  by pat_completeness auto
termination
  by (relation "measure (\<lambda>(e, today, maxDate, data, i). length data - i)") auto

declare scanRows.simps [simp del]

definition getNextUpcomingRow' :: "env \<Rightarrow> sheetRow list \<Rightarrow> jsval \<Rightarrow> error + sheetRow option" where
  "getNextUpcomingRow' e data optBaseDate =
     bindE (parseBaseDate' e optBaseDate) (\<lambda>today.
       let maxDate0 = Date_of e (DateObj today);
           maxDate = setDate e maxDate0 (map_option (\<lambda>d. d + 7) (getDate e maxDate0))
       in Inr (scanRows e today maxDate data 1))"

text \<open>\<open>isNoGroupRow_\<close>; \<open>None\<close> is the \<open>null\<close> row.\<close>

definition isNoGroupRow' :: "env \<Rightarrow> sheetRow option \<Rightarrow> error + bool" where
  "isNoGroupRow' e k =
     (case k of
        None \<Rightarrow> Inr False
      | Some r \<Rightarrow>
          bindE (toString_method e (js_or (idx r 2) (Str []))) (\<lambda>s.
            let location = toLowerCase (trim s) in Inr (location = ''no group'')))"

definition formatRowDate' :: "env \<Rightarrow> jsval \<Rightarrow> string \<Rightarrow> error + string" where
  "formatRowDate' e v pattern = (let d = setHours e (Date_of e v) 12 0 0 0 in formatDate e d pattern)"

definition getShortDate' :: "env \<Rightarrow> jsval \<Rightarrow> error + string" where
  "getShortDate' e v = formatRowDate' e v ''MM-dd''"

definition getSignupUrl' :: "env \<Rightarrow> error + string" where
  "getSignupUrl' e =
     bindE (getSheetId' e) (\<lambda>sheetId.
       Inr (''https://docs.google.com/spreadsheets/d/'' @ sheetId @ ''/edit?usp=sharing''))"

subsection \<open>Message content\<close>

definition nl :: string where
  "nl = [CHR 0x0A]"

definition dq :: string where
  "dq = [CHR 0x22]"

definition buildEmailBody' :: "env \<Rightarrow> sheetRow option \<Rightarrow> error + string" where
  "buildEmailBody' e k =
     (case k of
        None \<Rightarrow> Inr ''No upcoming events found.''
      | Some r \<Rightarrow>
          bindE (isNoGroupRow' e k) (\<lambda>noGroup.
            if noGroup then
              bindE (getShortDate' e (idx r 0)) (\<lambda>noGroupFormattedDate.
                Inr (''NO GROUP for Mendez/Williams City Group on '' @ noGroupFormattedDate))
            else
              bindE (formatRowDate' e (idx r 0) ''EEEE, MMMM d, yyyy'') (\<lambda>formattedDate.
              bindE (getSignupUrl' e) (\<lambda>signupUrl.
                Inr (nl @ ''  <p><strong>Date:</strong> '' @ formattedDate @ ''</p>'' @ nl
                   @ ''  <p><strong>Description:</strong> '' @ ToString e (idx r 1) @ ''</p>'' @ nl
                   @ ''  <p><strong>Location:</strong> '' @ ToString e (idx r 2) @ ''</p>'' @ nl
                   @ ''  <p><strong>Food Theme:</strong> '' @ ToString e (idx r 3) @ ''</p>'' @ nl
                   @ ''  <p><strong>Childcare Duty:</strong> '' @ ToString e (idx r 4) @ ''</p>'' @ nl
                   @ ''  <p><a href='' @ dq @ signupUrl @ dq @ ''>Click here to sign up</a></p>''
                   @ nl)))))"

definition buildEmailSubject' :: "env \<Rightarrow> sheetRow option \<Rightarrow> error + string" where
  "buildEmailSubject' e k =
     (case k of
        None \<Rightarrow> Inr ''Reminder for Mendez/Williams City Group''
      | Some r \<Rightarrow>
          bindE (getShortDate' e (idx r 0)) (\<lambda>formattedDate.
          bindE (isNoGroupRow' e k) (\<lambda>noGroup.
            if noGroup then Inr (''NO GROUP for Mendez/Williams City Group on '' @ formattedDate)
            else Inr (''Reminder for Mendez/Williams City Group on '' @ formattedDate))))"

text \<open>\<open>lines.join(sep)\<close>\<close>

fun join :: "string \<Rightarrow> string list \<Rightarrow> string" where
  "join sep [] = []"
| "join sep [x] = x"
| "join sep (x # y # ys) = x @ sep @ join sep (y # ys)"

definition buildGroupMeMessage' :: "env \<Rightarrow> sheetRow option \<Rightarrow> error + string" where
  "buildGroupMeMessage' e k =
     (case k of
        None \<Rightarrow> Inr ''Reminder for Mendez/Williams City Group''
      | Some r \<Rightarrow>
          bindE (getShortDate' e (idx r 0)) (\<lambda>shortDate.
          bindE (isNoGroupRow' e k) (\<lambda>noGroup.
            if noGroup then Inr (''NO GROUP for Mendez/Williams City Group on '' @ shortDate)
            else
              bindE (getSignupUrl' e) (\<lambda>signupUrl.
                Inr (join nl
                  [''Reminder for Mendez/Williams City Group on '' @ shortDate,
                   ''Description: '' @ ToString e (idx r 1),
                   ''Location: '' @ ToString e (idx r 2),
                   ''Food Theme: '' @ ToString e (idx r 3),
                   ''Childcare Duty: '' @ ToString e (idx r 4),
                   ''Sign up: '' @ signupUrl])))))"

record reminder =
  subject :: string
  emailBody :: string
  message :: string
  row :: "sheetRow option"

definition composeReminder' :: "env \<Rightarrow> sheetRow option \<Rightarrow> error + reminder" where
  "composeReminder' e r =
     bindE (buildEmailSubject' e r) (\<lambda>s.
     bindE (buildEmailBody' e r) (\<lambda>b.
     bindE (buildGroupMeMessage' e r) (\<lambda>m.
       Inr \<lparr>subject = s, emailBody = b, message = m, row = r\<rparr>)))"

text \<open>
  The condition of the loop on one row, \<open>rowDate >= today && rowDate <= maxDate\<close>, and the
  end of the window, \<open>maxDate\<close>, as \<open>getNextUpcomingRow_\<close> computes them.
\<close>

definition inWindow :: "env \<Rightarrow> timevalue \<Rightarrow> timevalue \<Rightarrow> sheetRow \<Rightarrow> bool" where
  "inWindow e today maxDate k =
     (date_ge (Date_of e (idx k 0)) today \<and> date_le (Date_of e (idx k 0)) maxDate)"

definition windowEnd :: "env \<Rightarrow> timevalue \<Rightarrow> timevalue" where
  "windowEnd e today = setDate e today (map_option (\<lambda>d. d + 7) (getDate e today))"

text \<open>
  \<open>performReminderSend_\<close> selects the row and composes the reminder before it hands the
  three strings to the mail and chat transports; this is its local \<open>reminder\<close>, given the
  values of the Schedule sheet and the optional base date.
\<close>

definition performReminderSend_reminder :: "env \<Rightarrow> sheetRow list \<Rightarrow> jsval \<Rightarrow> error + reminder" where
  "performReminderSend_reminder e scheduleData optBaseDate =
     bindE (getNextUpcomingRow' e scheduleData optBaseDate) (\<lambda>nextRow.
       composeReminder' e nextRow)"

text \<open>
  The inputs on which \<open>parseBaseDate_\<close> reaches one of its three \<open>new Date()\<close>: a falsy
  input, an input whose string is blank after trimming, and an input whose string matches
  neither pattern and is rejected by \<open>Date.parse\<close>.
\<close>

definition readsClock :: "env \<Rightarrow> jsval \<Rightarrow> bool" where
  "readsClock e optDate =
     (\<not> truthy optDate \<or>
      (case optDate of
         DateObj tv \<Rightarrow> False
       | _ \<Rightarrow>
          (case toString_method e optDate of
             Inl err \<Rightarrow> False
           | Inr s0 \<Rightarrow>
               trim s0 = [] \<or>
               (\<not> test slashDate_rx (trim s0) \<and> \<not> test isoDate_rx (trim s0)
                \<and> dateParse e (trim s0) = None))))"

text \<open>The length of month \<open>m\<close> (1 to 12) of year \<open>y\<close>.\<close>

definition daysInMonth :: "int \<Rightarrow> int \<Rightarrow> int" where
  "daysInMonth y m =
     (if m = 2 then (if DaysInYear y = 366 then 29 else 28)
      else if m = 4 \<or> m = 6 \<or> m = 9 \<or> m = 11 then 30 else 31)"

text \<open>
  The Date that the runtime makes of the local time \<open>x\<close> is valid and falls on the
  local day of \<open>x\<close>. It holds of every local time that exists, and also of a local time
  that a clock change skips when the moment chosen for it is on the same local day.
\<close>

definition resolvesToSameDay :: "env \<Rightarrow> int \<Rightarrow> bool" where
  "resolvesToSameDay e x =
     (case TimeClip (UTC e x) of None \<Rightarrow> False | Some t \<Rightarrow> Day (LocalTime e t) = Day x)"

text \<open>
  The local time \<open>x\<close> exists: the Date that the runtime makes of it is valid and its local
  time is \<open>x\<close> again.
\<close>

definition localTimeExists :: "env \<Rightarrow> int \<Rightarrow> bool" where
  "localTimeExists e x =
     (case TimeClip (UTC e x) of None \<Rightarrow> False | Some t \<Rightarrow> LocalTime e t = x)"

section \<open>The language of a pattern\<close>

text \<open>
  What a pattern matches, as a set of strings; the matcher by derivatives is proved to
  decide it.
\<close>

definition conc :: "string set \<Rightarrow> string set \<Rightarrow> string set" where
  "conc A B = {u @ v | u v. u \<in> A \<and> v \<in> B}"

inductive_set star :: "string set \<Rightarrow> string set" for A :: "string set" where
  star_empty: "[] \<in> star A"
| star_more: "u \<in> A \<Longrightarrow> v \<in> star A \<Longrightarrow> u @ v \<in> star A"

fun lang :: "regex \<Rightarrow> string set" where
  "lang Fail = {}"
| "lang Empty = {[]}"
| "lang (Class p) = {[c] | c. p c}"
| "lang (Cat r s) = conc (lang r) (lang s)"
| "lang (Or r s) = lang r \<union> lang s"
| "lang (Many r) = star (lang r)"

subsection \<open>Recipients\<close>

text \<open>The pattern of \<open>isValidEmail_\<close>: \<^verbatim>\<open>/^[^\s@]+@[^\s@]+\.[^\s@]+$/\<close>.\<close>

definition notSpaceAt :: "char \<Rightarrow> bool" where
  "notSpaceAt c = (\<not> isSpace c \<and> c \<noteq> CHR ''@'')"

definition email_rx :: regex where
  "email_rx =
     Cat (Some1 (Class notSpaceAt))
       (Cat (Lit (CHR ''@''))
         (Cat (Some1 (Class notSpaceAt))
           (Cat (Lit (CHR ''.'')) (Some1 (Class notSpaceAt)))))"

definition isValidEmail' :: "string \<Rightarrow> bool" where
  "isValidEmail' email =
     (if email = [] then False
      else if length email > 320 then False
      else test email_rx email)"

text \<open>
  The shape of a valid address in words: one or more characters that are neither white space
  nor \<open>@\<close>, an \<open>@\<close>, one or more such characters, a dot, one or more such characters.
\<close>

definition emailShape :: "string \<Rightarrow> bool" where
  "emailShape s =
     (\<exists>a b c. s = a @ ''@'' @ b @ ''.'' @ c
        \<and> a \<noteq> [] \<and> list_all notSpaceAt a
        \<and> b \<noteq> [] \<and> list_all notSpaceAt b
        \<and> c \<noteq> [] \<and> list_all notSpaceAt c)"

text \<open>
  What \<open>sendEmailToRecipients_\<close> does to the outside: lines written to the log and the one
  mail handed to \<open>MailApp.sendEmail\<close> (recipients, subject, HTML body).
\<close>

datatype effect =
    Log string
  | SendEmail string string string

text \<open>\<open>recipients.map(function (r) { return (r || "").toString().trim(); })\<close>\<close>

fun normalizeRecipients :: "env \<Rightarrow> jsval list \<Rightarrow> error + string list" where
  "normalizeRecipients e [] = Inr []"
| "normalizeRecipients e (r # rs) =
     bindE (toString_method e (js_or r (Str []))) (\<lambda>s.
     bindE (normalizeRecipients e rs) (\<lambda>ss. Inr (trim s # ss)))"

text \<open>The loop that pushes each normalized recipient on one of the two lists.\<close>

fun partitionRecipients :: "string list \<Rightarrow> string list \<Rightarrow> string list \<Rightarrow> string list \<times> string list" where
  "partitionRecipients [] validRecipients invalidRecipients = (validRecipients, invalidRecipients)"
| "partitionRecipients (r # rs) validRecipients invalidRecipients =
     (if isValidEmail' r then partitionRecipients rs (validRecipients @ [r]) invalidRecipients
      else partitionRecipients rs validRecipients (invalidRecipients @ [r]))"

text \<open>The two lists \<open>validRecipients\<close> and \<open>invalidRecipients\<close> after the loop.\<close>

definition validatedRecipients :: "env \<Rightarrow> jsval list \<Rightarrow> error + string list \<times> string list" where
  "validatedRecipients e recipients =
     bindE (normalizeRecipients e recipients) (\<lambda>normalizedRecipients.
       Inr (partitionRecipients normalizedRecipients [] []))"

definition sendEmailToRecipients' ::
  "env \<Rightarrow> string \<Rightarrow> string \<Rightarrow> jsval list option \<Rightarrow> error + effect list" where
  "sendEmailToRecipients' e subj body recipients =
     (case recipients of
        None \<Rightarrow> Inr [Log ''No email recipients provided.'']
      | Some rs \<Rightarrow>
          if length rs = 0 then Inr [Log ''No email recipients provided.'']
          else
            bindE (validatedRecipients e rs) (\<lambda>(validRecipients, invalidRecipients).
              let logged =
                (if length invalidRecipients > 0
                 then [Log (''Invalid email recipients provided: '' @ join '','' invalidRecipients)]
                 else [])
              in if length validRecipients = 0
                 then Inr (logged @ [Log ''No valid email recipients provided.''])
                 else Inr (logged @ [SendEmail (join '','' validRecipients) subj body])))"

subsection \<open>The older variant of the script\<close>

text \<open>
  The repository holds an older copy of the script whose \<open>parseBaseDate_\<close> differs from the
  one above in one respect: every \<open>setHours(12, 0, 0, 0)\<close> is \<open>setHours(0, 0, 0, 0)\<close>.
\<close>

definition parseBaseDate_midnight' :: "env \<Rightarrow> jsval \<Rightarrow> error + timevalue" where
  "parseBaseDate_midnight' e optDate =
     (if \<not> truthy optDate then Inr (setHours e (Date_now e) 0 0 0 0)
      else case optDate of
        DateObj tv \<Rightarrow> Inr (setHours e (Date_of e (getTime tv)) 0 0 0 0)
      | _ \<Rightarrow>
        bindE (toString_method e (js_or optDate (Str []))) (\<lambda>s0.
          let s = trim s0 in
          if s = [] then Inr (setHours e (Date_now e) 0 0 0 0)
          else case match3 slashDate_rx s of
            Some (m1, m2, m3) \<Rightarrow>
              (let month = parseInt m1 - 1; day = parseInt m2; year = parseInt m3;
                   year = (if year < 100 then year + 2000 else year)
               in Inr (setHours e (Date_ymd e year month day) 0 0 0 0))
          | None \<Rightarrow>
             (case match3 isoDate_rx s of
                Some (iso1, iso2, iso3) \<Rightarrow>
                  (let y = parseInt iso1; mth = parseInt iso2 - 1; dy = parseInt iso3
                   in Inr (setHours e (Date_ymd e y mth dy) 0 0 0 0))
              | None \<Rightarrow>
                 (let parsedGeneric = Date_of e (Str s)
                  in if parsedGeneric \<noteq> None then Inr (setHours e parsedGeneric 0 0 0 0)
                     else Inr (setHours e (Date_now e) 0 0 0 0)))))"

section \<open>A sample environment and sample tables\<close>

text \<open>
  The environment of the test suite: script time zone UTC, a formatter that answers
  \<open>12-17\<close> to the pattern \<open>MM-dd\<close>, the sheet id \<open>SHEET123\<close>. The clock reads
  2025-12-17 10:15 UTC and \<open>Date.parse\<close> accepts nothing.
\<close>

definition testEnv :: env where
  "testEnv =
     \<lparr> now = 1765966500000,
       localTZA = (\<lambda>t isUTC. 0),
       dateParse = (\<lambda>s. None),
       dateToString = (\<lambda>t. ''[Date]''),
       exponentToString = (\<lambda>n. ''1e+21''),
       formatDate = (\<lambda>t pattern. if pattern = ''MM-dd'' then Inr ''12-17'' else Inr ''FORMATTED_DATE''),
       getProperty = (\<lambda>key. if key = ''SHEET_ID'' then Some ''SHEET123'' else None) \<rparr>"

text \<open>
  The table of the test "returns first row within next 7 days": rows dated ten days, two
  days and one day after 2025-12-17, at midnight.
\<close>

definition testTable :: "sheetRow list" where
  "testTable =
     [[Str ''Date'', Str ''Description'', Str ''Location'', Str ''Food'', Str ''Childcare''],
      [DateObj (Some 1766793600000), Str ''too far'', Str ''loc'', Str ''food'', Str ''cc''],
      [DateObj (Some 1766102400000), Str ''soon'', Str ''loc'', Str ''food'', Str ''cc''],
      [DateObj (Some 1766016000000), Str ''even sooner but later in sheet'', Str ''loc'', Str ''food'', Str ''cc'']]"

definition malformedTable :: "sheetRow list" where
  "malformedTable =
     [[Str ''Date'', Str ''Description''],
      [Str ''not a date'', Str ''malformed''],
      [],
      [DateObj (Some 1766102400000), Str ''soon'']]"

definition noGroupRow :: sheetRow where
  "noGroupRow = [DateObj (Some 1765929600000), Str ''Desc'', Str ''No Group'', Str ''Food'', Str ''Duty'']"

text \<open>A no-group row dated 2025-03-02, its location written in lower case between blanks.\<close>

definition noGroupRowMarch :: sheetRow where
  "noGroupRowMarch = [DateObj (Some 1740873600000), Str ''Desc'', Str '' no group '', Str ''Food'', Str ''Duty'']"

text \<open>
  The sample environment with a formatter that reads the date: to the pattern \<open>MM-dd\<close> it
  answers the month and the day of the month of the moment in the script time zone (UTC),
  two digits each, and it rejects an invalid Date as \<open>Utilities.formatDate\<close> does.
\<close>

definition pad2 :: "int \<Rightarrow> string" where
  "pad2 n = (if n < 10 then CHR ''0'' # digits (nat n) else digits (nat n))"

definition utcFormatEnv :: env where
  "utcFormatEnv =
     testEnv\<lparr>formatDate := (\<lambda>t pattern.
       case t of
         None \<Rightarrow> Inl (Error ''Invalid argument: date'')
       | Some x \<Rightarrow>
           if pattern = ''MM-dd''
           then Inr (pad2 (MonthFromTime x + 1) @ ''-'' @ pad2 (DateFromTime x))
           else Inr ''FORMATTED_DATE'')\<rparr>"

text \<open>
  Three time zones with a clock change. For a local time that the change skips, the offset
  from before the change applies, as ECMA-262 prescribes.

  \<^item> Samoa at the end of 2011: at the end of December 29 the offset went from ten hours
    behind UTC to fourteen hours ahead, so the local day December 30 does not exist.
  \<^item> Havana in March 2025: on March 9 the clocks went from 0:00 to 1:00, so local midnight
    of that day does not exist, and the moment chosen for it is 1:00 of the same day.
  \<^item> A zone whose clocks go from 12:00 to 13:00 on 2025-12-17, so local noon of that day does
    not exist.
\<close>

definition samoaEnv :: env where
  "samoaEnv =
     testEnv\<lparr>localTZA := (\<lambda>t isUTC.
       if isUTC then (if t < 1325239200000 then - 36000000 else 50400000)
       else (if t < 1325289600000 then - 36000000 else 50400000))\<rparr>"

definition havanaEnv :: env where
  "havanaEnv =
     testEnv\<lparr>localTZA := (\<lambda>t isUTC.
       if isUTC then (if t < 1741496400000 then - 18000000 else - 14400000)
       else (if t < 1741482000000 then - 18000000 else - 14400000))\<rparr>"

definition noonGapEnv :: env where
  "noonGapEnv =
     testEnv\<lparr>localTZA := (\<lambda>t isUTC.
       if isUTC then (if t < 1765972800000 then 0 else 3600000)
       else (if t < 1765976400000 then 0 else 3600000))\<rparr>"

section \<open>Properties of the schedule lookup\<close>

lemma bindE_simps [simp]:
  "bindE (Inl err) f = Inl err"
  "bindE (Inr x) f = f x"
  by (simp_all add: bindE_def)

lemma bindE_eq_Inr:
  "bindE m f = Inr y \<longleftrightarrow> (\<exists>x. m = Inr x \<and> f x = Inr y)"
  by (cases m) simp_all

text \<open>The loop from row \<open>i\<close> is a search for the first row of \<open>drop i data\<close> in the window.\<close>

lemma scanRows_find:
  "scanRows e today maxDate data i = find (inWindow e today maxDate) (drop i data)"
proof (induction e today maxDate data i rule: scanRows.induct)
  case (1 e today maxDate data i)
  show ?case
  proof (cases "i < length data")
    case False
    then show ?thesis by (subst scanRows.simps) simp
  next
    case True
    then have split: "drop i data = data ! i # drop (Suc i) data"
      by (simp add: Cons_nth_drop_Suc)
    show ?thesis
    proof (cases "inWindow e today maxDate (data ! i)")
      case True
      with \<open>i < length data\<close> split show ?thesis
        by (subst scanRows.simps) (simp add: inWindow_def)
    next
      case False
      then have nw: "\<not> (date_ge (Date_of e (idx (data ! i) 0)) today
                     \<and> date_le (Date_of e (idx (data ! i) 0)) maxDate)"
        by (simp add: inWindow_def)
      with \<open>i < length data\<close>
      have "scanRows e today maxDate data i = scanRows e today maxDate data (i + 1)"
        by (subst scanRows.simps) (auto simp: Let_def)
      also have "\<dots> = find (inWindow e today maxDate) (drop (i + 1) data)"
        by (rule "1.IH"[OF \<open>i < length data\<close> refl refl nw])
      finally show ?thesis using False split by simp
    qed
  qed
qed

lemma toString_js_or: "\<exists>s. toString_method e (js_or v (Str [])) = Inr s"
  by (cases v) (simp_all add: js_or_def)

text \<open>\<open>parseBaseDate_\<close> has no path that throws.\<close>

lemma parseBaseDate_returns: "\<exists>tv. parseBaseDate' e optDate = Inr tv"
proof (cases "truthy optDate")
  case False
  then show ?thesis by (simp add: parseBaseDate'_def)
next
  case True
  obtain s where s: "toString_method e (js_or optDate (Str [])) = Inr s"
    using toString_js_or by blast
  show ?thesis
    using True s
    by (cases optDate)
       (auto simp: parseBaseDate'_def Let_def split: option.splits prod.splits)
qed

lemma getNextUpcomingRow_find:
  assumes "parseBaseDate' e base = Inr today"
  shows "getNextUpcomingRow' e data base =
         Inr (find (inWindow e today (windowEnd e today)) (drop 1 data))"
  using assms
  by (simp add: getNextUpcomingRow'_def Let_def Date_of_def windowEnd_def scanRows_find)

lemma getNextUpcomingRow_returns: "\<exists>r. getNextUpcomingRow' e data base = Inr r"
proof -
  obtain today where "parseBaseDate' e base = Inr today"
    using parseBaseDate_returns by blast
  then show ?thesis by (simp add: getNextUpcomingRow_find)
qed

lemma inWindow_iff:
  "inWindow e today maxDate k \<longleftrightarrow>
     (\<exists>t m d. today = Some t \<and> maxDate = Some m \<and> Date_of e (idx k 0) = Some d \<and> t \<le> d \<and> d \<le> m)"
  by (auto simp: inWindow_def date_ge_def date_le_def split: option.splits)

lemma invalid_not_inWindow: "Date_of e (idx k 0) = None \<Longrightarrow> \<not> inWindow e today maxDate k"
  by (simp add: inWindow_def date_ge_def)

lemma find_skip: "\<not> P k \<Longrightarrow> find P (pre @ k # post) = find P (pre @ post)"
  by (induction pre) simp_all

lemma find_drop1_Some_iff:
  "find P (drop 1 xs) = Some x \<longleftrightarrow>
     (\<exists>i. 1 \<le> i \<and> i < length xs \<and> xs ! i = x \<and> P x \<and> (\<forall>j. 1 \<le> j \<and> j < i \<longrightarrow> \<not> P (xs ! j)))"
proof
  assume "find P (drop 1 xs) = Some x"
  then obtain i where i: "i < length (drop 1 xs)" "P (drop 1 xs ! i)" "x = drop 1 xs ! i"
      "\<forall>j<i. \<not> P (drop 1 xs ! j)"
    unfolding find_Some_iff by blast
  have "\<forall>j. 1 \<le> j \<and> j < Suc i \<longrightarrow> \<not> P (xs ! j)"
  proof (intro allI impI)
    fix j assume j: "1 \<le> j \<and> j < Suc i"
    then obtain j' where j': "j = Suc j'" by (cases j) auto
    with j i(4) have "\<not> P (drop 1 xs ! j')" by simp
    with j' i(1) j show "\<not> P (xs ! j)" by simp
  qed
  with i show "\<exists>i. 1 \<le> i \<and> i < length xs \<and> xs ! i = x \<and> P x \<and> (\<forall>j. 1 \<le> j \<and> j < i \<longrightarrow> \<not> P (xs ! j))"
    by (intro exI[of _ "Suc i"]) auto
next
  assume "\<exists>i. 1 \<le> i \<and> i < length xs \<and> xs ! i = x \<and> P x \<and> (\<forall>j. 1 \<le> j \<and> j < i \<longrightarrow> \<not> P (xs ! j))"
  then obtain i where i: "1 \<le> i" "i < length xs" "xs ! i = x" "P x"
      "\<forall>j. 1 \<le> j \<and> j < i \<longrightarrow> \<not> P (xs ! j)" by blast
  then obtain i' where i': "i = Suc i'" by (cases i) auto
  have "i' < length (drop 1 xs) \<and> P (drop 1 xs ! i') \<and> x = drop 1 xs ! i' \<and> (\<forall>j<i'. \<not> P (drop 1 xs ! j))"
    using i i' by auto
  then show "find P (drop 1 xs) = Some x"
    unfolding find_Some_iff by blast
qed

lemma find_drop1_None_iff:
  "find P (drop 1 xs) = None \<longleftrightarrow> (\<forall>i. 1 \<le> i \<and> i < length xs \<longrightarrow> \<not> P (xs ! i))"
proof
  assume n: "find P (drop 1 xs) = None"
  show "\<forall>i. 1 \<le> i \<and> i < length xs \<longrightarrow> \<not> P (xs ! i)"
  proof (intro allI impI)
    fix i assume i: "1 \<le> i \<and> i < length xs"
    then obtain i' where i': "i = Suc i'" by (cases i) auto
    with i have "drop 1 xs ! i' \<in> set (drop 1 xs)" by (intro nth_mem) simp
    with n have "\<not> P (drop 1 xs ! i')" by (simp add: find_None_iff)
    with i i' show "\<not> P (xs ! i)" by simp
  qed
next
  assume a: "\<forall>i. 1 \<le> i \<and> i < length xs \<longrightarrow> \<not> P (xs ! i)"
  have "\<not> P x" if "x \<in> set (drop 1 xs)" for x
  proof -
    from that obtain j where j: "j < length (drop 1 xs)" "drop 1 xs ! j = x"
      by (auto simp: in_set_conv_nth)
    then have "xs ! Suc j = x" "Suc j < length xs" by auto
    with a show ?thesis by force
  qed
  then show "find P (drop 1 xs) = None" by (auto simp: find_None_iff)
qed

subsection \<open>The end of the window\<close>

lemma MonthFromTime_range: "0 \<le> MonthFromTime t \<and> MonthFromTime t \<le> 11"
  by (simp add: MonthFromTime_def Let_def)

text \<open>
  Setting the day of the month to the current one plus \<open>n\<close> moves the day number by \<open>n\<close>,
  whatever month or year the new day falls in.
\<close>

lemma MakeDay_current:
  "MakeDay (YearFromTime t) (MonthFromTime t) (DateFromTime t + n) = Day t + n"
proof -
  have m: "MonthFromTime t div 12 = 0" "MonthFromTime t mod 12 = MonthFromTime t"
    using MonthFromTime_range[of t] by simp_all
  show ?thesis
    by (simp add: MakeDay_def Let_def m DateFromTime_def DayWithinYear_def InLeapYear_def)
qed

lemma MakeDate_Day: "MakeDate (Day t + n) (TimeWithinDay t) = t + n * msPerDay"
proof -
  have "t div msPerDay * msPerDay + t mod msPerDay = t" by simp
  then show ?thesis
    by (simp add: MakeDate_def Day_def TimeWithinDay_def algebra_simps)
qed

lemma windowEnd_Some:
  "windowEnd e (Some today) = TimeClip (UTC e (LocalTime e today + 7 * msPerDay))"
  by (simp add: windowEnd_def setDate_def getDate_def Let_def MakeDay_current MakeDate_Day)

subsection \<open>The window and the order of selection\<close>

text \<open>
  C1: \<open>getNextUpcomingRow_\<close> never returns a row dated before the base date or after the
  base date plus seven days. A returned row has a valid date \<open>rowDate\<close> with
  \<open>today \<le> rowDate \<le> maxDate\<close>, where \<open>today\<close> is the result of \<open>parseBaseDate_\<close>. The end
  of the window is computed on the calendar: \<open>maxDate\<close> is the local date and time of
  \<open>today\<close> moved seven days on. Both ends are inclusive: a row dated exactly \<open>today\<close> or
  exactly \<open>maxDate\<close>, first after the header, is returned.
\<close>

theorem window_bounds:
  "(getNextUpcomingRow' e data base = Inr (Some k) \<longrightarrow>
      (\<exists>today maxDate rowDate.
          parseBaseDate' e base = Inr (Some today)
        \<and> windowEnd e (Some today) = Some maxDate
        \<and> Date_of e (idx k 0) = Some rowDate
        \<and> today \<le> rowDate \<and> rowDate \<le> maxDate))
   \<and> windowEnd e (Some t) = TimeClip (UTC e (LocalTime e t + 7 * msPerDay))
   \<and> (parseBaseDate' e base = Inr (Some t) \<and> windowEnd e (Some t) = Some m \<and> t \<le> m
        \<and> (Date_of e (idx k 0) = Some t \<or> Date_of e (idx k 0) = Some m)
      \<longrightarrow> getNextUpcomingRow' e (header # k # rest) base = Inr (Some k))"
proof (intro conjI impI)
  assume sel: "getNextUpcomingRow' e data base = Inr (Some k)"
  obtain today where t: "parseBaseDate' e base = Inr today"
    using parseBaseDate_returns by blast
  with sel have "find (inWindow e today (windowEnd e today)) (drop 1 data) = Some k"
    by (simp add: getNextUpcomingRow_find)
  then have "inWindow e today (windowEnd e today) k"
    by (auto simp: find_Some_iff)
  then show "\<exists>today maxDate rowDate.
          parseBaseDate' e base = Inr (Some today)
        \<and> windowEnd e (Some today) = Some maxDate
        \<and> Date_of e (idx k 0) = Some rowDate
        \<and> today \<le> rowDate \<and> rowDate \<le> maxDate"
    using t by (auto simp: inWindow_iff)
next
  show "windowEnd e (Some t) = TimeClip (UTC e (LocalTime e t + 7 * msPerDay))"
    by (rule windowEnd_Some)
next
  assume a: "parseBaseDate' e base = Inr (Some t) \<and> windowEnd e (Some t) = Some m \<and> t \<le> m
        \<and> (Date_of e (idx k 0) = Some t \<or> Date_of e (idx k 0) = Some m)"
  then have "inWindow e (Some t) (windowEnd e (Some t)) k"
    by (auto simp: inWindow_iff)
  with a show "getNextUpcomingRow' e (header # k # rest) base = Inr (Some k)"
    by (simp add: getNextUpcomingRow_find)
qed

text \<open>
  With the clock at 2025-12-17 10:15 the window runs from noon of 12-17 to noon of 12-24;
  the row of 12-19 is returned, and so is a row dated at either end.
\<close>

theorem window_bounds_witness:
  "getNextUpcomingRow' testEnv testTable Undefined = Inr (Some (testTable ! 2))
   \<and> parseBaseDate' testEnv Undefined = Inr (Some 1765972800000)
   \<and> windowEnd testEnv (Some 1765972800000) = Some 1766577600000
   \<and> Date_of testEnv (idx (testTable ! 2) 0) = Some 1766102400000
   \<and> (1765972800000 :: int) \<le> 1766102400000 \<and> (1766102400000 :: int) \<le> 1766577600000
   \<and> getNextUpcomingRow' testEnv [[], [DateObj (Some 1765972800000)], []] Undefined
       = Inr (Some [DateObj (Some 1765972800000)])
   \<and> getNextUpcomingRow' testEnv [[], [DateObj (Some 1766577600000)], []] Undefined
       = Inr (Some [DateObj (Some 1766577600000)])"
proof -
  have sel: "getNextUpcomingRow' testEnv testTable Undefined = Inr (Some (testTable ! 2))"
    by code_simp
  have pb: "parseBaseDate' testEnv Undefined = Inr (Some 1765972800000)" by code_simp
  have d2: "Date_of testEnv (idx (testTable ! 2) 0) = Some 1766102400000" by code_simp
  have lo: "Date_of testEnv (idx [DateObj (Some 1765972800000)] 0) = Some 1765972800000"
    by code_simp
  have hi: "Date_of testEnv (idx [DateObj (Some 1766577600000)] 0) = Some 1766577600000"
    by code_simp
  have tc: "TimeClip (UTC testEnv (LocalTime testEnv 1765972800000 + 7 * msPerDay)) = Some 1766577600000"
    by code_simp
  have we: "windowEnd testEnv (Some 1765972800000) = Some 1766577600000"
    using window_bounds [of testEnv testTable Undefined "testTable ! 2" 1765972800000] tc
    by simp
  have e1: "getNextUpcomingRow' testEnv [[], [DateObj (Some 1765972800000)], []] Undefined
       = Inr (Some [DateObj (Some 1765972800000)])"
    by (rule window_bounds [of testEnv _ Undefined "[DateObj (Some 1765972800000)]"
          1765972800000 1766577600000 "[]" "[[]]", THEN conjunct2, THEN conjunct2, THEN mp])
       (simp add: pb we lo)
  have e2: "getNextUpcomingRow' testEnv [[], [DateObj (Some 1766577600000)], []] Undefined
       = Inr (Some [DateObj (Some 1766577600000)])"
    by (rule window_bounds [of testEnv _ Undefined "[DateObj (Some 1766577600000)]"
          1765972800000 1766577600000 "[]" "[[]]", THEN conjunct2, THEN conjunct2, THEN mp])
       (simp add: pb we hi)
  show ?thesis using sel pb we d2 e1 e2 by simp
qed

text \<open>
  The comparison is one of moments, and the base date is pinned to noon: a row dated at
  midnight of the base day lies before the start of the window and is not returned.
\<close>

lemma midnight_row_of_base_day:
  "parseBaseDate' testEnv (Str ''12/17/25'') = Inr (Some 1765972800000)
   \<and> Date_of testEnv (idx [DateObj (Some 1765929600000), Str ''today''] 0) = Some 1765929600000
   \<and> getNextUpcomingRow' testEnv [[Str ''Date''], [DateObj (Some 1765929600000), Str ''today'']]
         (Str ''12/17/25'') = Inr None"
  by code_simp

text \<open>
  C2: \<open>getNextUpcomingRow_\<close> scans from index 1 in table order and returns the first row
  whose date lies in the window. It returns \<open>k\<close> exactly when \<open>k\<close> is a row at some index
  \<open>i \<ge> 1\<close> that is in the window while no row at an index from 1 up to \<open>i\<close> is, so
  the dates of the rows after \<open>i\<close> play no part. The header at index 0 is never looked at:
  the result is the same whatever the first row of the table is.
\<close>

theorem first_in_table_order:
  assumes "parseBaseDate' e base = Inr today"
  shows "(getNextUpcomingRow' e data base = Inr (Some k) \<longleftrightarrow>
     (\<exists>i. 1 \<le> i \<and> i < length data \<and> data ! i = k
        \<and> inWindow e today (windowEnd e today) k
        \<and> (\<forall>j. 1 \<le> j \<and> j < i \<longrightarrow> \<not> inWindow e today (windowEnd e today) (data ! j))))
   \<and> getNextUpcomingRow' e (header # rest) base = getNextUpcomingRow' e (header' # rest) base"
proof
  show "getNextUpcomingRow' e data base = Inr (Some k) \<longleftrightarrow>
     (\<exists>i. 1 \<le> i \<and> i < length data \<and> data ! i = k
        \<and> inWindow e today (windowEnd e today) k
        \<and> (\<forall>j. 1 \<le> j \<and> j < i \<longrightarrow> \<not> inWindow e today (windowEnd e today) (data ! j)))"
    using getNextUpcomingRow_find[OF assms, of data]
          find_drop1_Some_iff[of "inWindow e today (windowEnd e today)" data k]
    by simp
next
  show "getNextUpcomingRow' e (header # rest) base = getNextUpcomingRow' e (header' # rest) base"
    by (simp add: getNextUpcomingRow_find[OF assms])
qed

text \<open>
  The table of the test suite: the row of 12-19 at index 2 is returned although the row at
  index 3 is dated 12-18, earlier and in the window as well.
\<close>

theorem first_in_table_order_witness:
  "parseBaseDate' testEnv Undefined = Inr (Some 1765972800000)
   \<and> getNextUpcomingRow' testEnv testTable Undefined = Inr (Some (testTable ! 2))
   \<and> inWindow testEnv (Some 1765972800000) (windowEnd testEnv (Some 1765972800000)) (testTable ! 3)
   \<and> Date_of testEnv (idx (testTable ! 3) 0) = Some 1766016000000
   \<and> Date_of testEnv (idx (testTable ! 2) 0) = Some 1766102400000"
proof -
  let ?today = "Some 1765972800000 :: timevalue"
  have pb: "parseBaseDate' testEnv Undefined = Inr ?today" by code_simp
  have r1: "\<not> inWindow testEnv ?today (windowEnd testEnv ?today) (testTable ! 1)" by code_simp
  have r2: "inWindow testEnv ?today (windowEnd testEnv ?today) (testTable ! 2)" by code_simp
  have r3: "inWindow testEnv ?today (windowEnd testEnv ?today) (testTable ! 3)" by code_simp
  have len: "2 < length testTable" by code_simp
  have before: "\<forall>j. 1 \<le> j \<and> j < 2 \<longrightarrow> \<not> inWindow testEnv ?today (windowEnd testEnv ?today) (testTable ! j)"
  proof (intro allI impI)
    fix j :: nat assume "1 \<le> j \<and> j < 2"
    then have "j = 1" by simp
    with r1 show "\<not> inWindow testEnv ?today (windowEnd testEnv ?today) (testTable ! j)" by simp
  qed
  have "\<exists>i. 1 \<le> i \<and> i < length testTable \<and> testTable ! i = testTable ! 2
        \<and> inWindow testEnv ?today (windowEnd testEnv ?today) (testTable ! 2)
        \<and> (\<forall>j. 1 \<le> j \<and> j < i \<longrightarrow> \<not> inWindow testEnv ?today (windowEnd testEnv ?today) (testTable ! j))"
    using len r2 before by (intro exI[of _ 2]) simp
  then have sel: "getNextUpcomingRow' testEnv testTable Undefined = Inr (Some (testTable ! 2))"
    using first_in_table_order [OF pb, of testTable "testTable ! 2"] by blast
  have d3: "Date_of testEnv (idx (testTable ! 3) 0) = Some 1766016000000" by code_simp
  have d2: "Date_of testEnv (idx (testTable ! 2) 0) = Some 1766102400000" by code_simp
  show ?thesis using pb sel r3 d3 d2 by simp
qed

text \<open>
  C5: a row whose date field does not convert to a date does not make
  \<open>getNextUpcomingRow_\<close> throw. The function returns on every table; a row with an invalid
  date is outside every window and the scan goes on as if the row were not there; and
  \<open>null\<close> is returned exactly when no row from index 1 on is in the window.
\<close>

theorem malformed_row_skipped:
  "(\<exists>r. getNextUpcomingRow' e data base = Inr r)
   \<and> (Date_of e (idx k 0) = None \<longrightarrow>
        \<not> inWindow e today maxDate k
        \<and> getNextUpcomingRow' e (header # pre @ k # post) base
            = getNextUpcomingRow' e (header # pre @ post) base)
   \<and> (parseBaseDate' e base = Inr today \<longrightarrow>
        (getNextUpcomingRow' e data base = Inr None \<longleftrightarrow>
           (\<forall>i. 1 \<le> i \<and> i < length data
                \<longrightarrow> \<not> inWindow e today (windowEnd e today) (data ! i))))"
proof (intro conjI impI)
  show "\<exists>r. getNextUpcomingRow' e data base = Inr r"
    by (rule getNextUpcomingRow_returns)
next
  assume "Date_of e (idx k 0) = None"
  then show "\<not> inWindow e today maxDate k" by (rule invalid_not_inWindow)
next
  assume bad: "Date_of e (idx k 0) = None"
  obtain t where t: "parseBaseDate' e base = Inr t"
    using parseBaseDate_returns by blast
  have "\<not> inWindow e t (windowEnd e t) k" using bad by (rule invalid_not_inWindow)
  then show "getNextUpcomingRow' e (header # pre @ k # post) base
            = getNextUpcomingRow' e (header # pre @ post) base"
    by (simp add: getNextUpcomingRow_find[OF t] find_skip)
next
  assume t: "parseBaseDate' e base = Inr today"
  show "getNextUpcomingRow' e data base = Inr None \<longleftrightarrow>
           (\<forall>i. 1 \<le> i \<and> i < length data
                \<longrightarrow> \<not> inWindow e today (windowEnd e today) (data ! i))"
    using getNextUpcomingRow_find[OF t, of data]
          find_drop1_None_iff[of "inWindow e today (windowEnd e today)" data]
    by simp
qed

text \<open>
  A table with a row whose date is text that does not parse and an empty row, before a row
  in the window: the third row is returned; without it, \<open>null\<close>.
\<close>

theorem malformed_row_skipped_witness:
  "Date_of testEnv (idx (malformedTable ! 1) 0) = None
   \<and> Date_of testEnv (idx (malformedTable ! 2) 0) = None
   \<and> getNextUpcomingRow' testEnv malformedTable Undefined = Inr (Some (malformedTable ! 3))
   \<and> parseBaseDate' testEnv Undefined = Inr (Some 1765972800000)
   \<and> getNextUpcomingRow' testEnv (take 3 malformedTable) Undefined = Inr None"
proof -
  let ?today = "Some 1765972800000 :: timevalue"
  have pb: "parseBaseDate' testEnv Undefined = Inr ?today" by code_simp
  have b1: "Date_of testEnv (idx (malformedTable ! 1) 0) = None" by code_simp
  have b2: "Date_of testEnv (idx (malformedTable ! 2) 0) = None" by code_simp
  have b2': "Date_of testEnv (idx [] 0) = None" by code_simp
  have tab: "malformedTable = malformedTable ! 0 # [malformedTable ! 1] @ [] # [malformedTable ! 3]"
    by (simp add: malformedTable_def)
  have short: "getNextUpcomingRow' testEnv (malformedTable ! 0 # [malformedTable ! 1] @ [malformedTable ! 3]) Undefined
      = Inr (Some (malformedTable ! 3))" by code_simp
  have "getNextUpcomingRow' testEnv (malformedTable ! 0 # [malformedTable ! 1] @ [] # [malformedTable ! 3]) Undefined
      = getNextUpcomingRow' testEnv (malformedTable ! 0 # [malformedTable ! 1] @ [malformedTable ! 3]) Undefined"
    using malformed_row_skipped [of testEnv _ Undefined "[]" _ _ "malformedTable ! 0"
        "[malformedTable ! 1]" "[malformedTable ! 3]"] b2'
    by blast
  with tab short have sel: "getNextUpcomingRow' testEnv malformedTable Undefined = Inr (Some (malformedTable ! 3))"
    by simp
  have none: "getNextUpcomingRow' testEnv (take 3 malformedTable) Undefined = Inr None" by code_simp
  show ?thesis using pb b1 b2 sel none by simp
qed

section \<open>Properties of the messages\<close>

lemma isNoGroupRow_returns: "\<exists>b. isNoGroupRow' e k = Inr b"
proof (cases k)
  case None
  then show ?thesis by (auto simp: isNoGroupRow'_def)
next
  case (Some r)
  obtain s where "toString_method e (js_or (idx r 2) (Str [])) = Inr s"
    using toString_js_or by blast
  with Some show ?thesis by (simp add: isNoGroupRow'_def)
qed

lemma trim_Nil: "trim [] = []"
  by (simp add: trim_def)

text \<open>
  C10: on a row that is not \<open>null\<close>, \<open>isNoGroupRow_\<close> returns, whatever the length of the
  row and whatever the value of the location field; a location that is missing (fewer than
  three fields) or falsy (\<open>null\<close>, \<open>undefined\<close>, the empty string, 0, NaN, \<open>false\<close>) is read as
  the empty string and the row is not a no-group row.
\<close>

theorem isNoGroupRow_total:
  "(\<exists>b. isNoGroupRow' e (Some k) = Inr b) \<and>
   (length k < 3 \<or> \<not> truthy (idx k 2) \<longrightarrow> isNoGroupRow' e (Some k) = Inr False)"
proof
  show "\<exists>b. isNoGroupRow' e (Some k) = Inr b" by (rule isNoGroupRow_returns)
next
  show "length k < 3 \<or> \<not> truthy (idx k 2) \<longrightarrow> isNoGroupRow' e (Some k) = Inr False"
  proof
    assume "length k < 3 \<or> \<not> truthy (idx k 2)"
    then have "\<not> truthy (idx k 2)" by (auto simp: idx_def)
    then have "js_or (idx k 2) (Str []) = Str []" by (simp add: js_or_def)
    then show "isNoGroupRow' e (Some k) = Inr False"
      by (simp add: isNoGroupRow'_def trim_Nil toLowerCase_def)
  qed
qed

theorem isNoGroupRow_total_witness:
  "length [DateObj None, Str ''Desc''] < 3 \<and>
   isNoGroupRow' testEnv (Some [DateObj None, Str ''Desc'']) = Inr False \<and>
   \<not> truthy (idx [Str ''d'', Str ''x'', Null] 2) \<and>
   isNoGroupRow' testEnv (Some [Str ''d'', Str ''x'', Null]) = Inr False"
  using isNoGroupRow_total [of testEnv "[DateObj None, Str ''Desc'']"]
        isNoGroupRow_total [of testEnv "[Str ''d'', Str ''x'', Null]"]
  by (simp add: idx_def)

text \<open>
  C6: on a row that \<open>isNoGroupRow_\<close> classifies as no-group, \<open>buildEmailSubject_\<close>,
  \<open>buildEmailBody_\<close> and \<open>buildGroupMeMessage_\<close> return the same thing: the text
  \<open>NO GROUP for Mendez/Williams City Group on\<close> followed by what \<open>Utilities.formatDate\<close>
  answers to the pattern \<open>MM-dd\<close> on the date of the row (its first field) set to 12:00
  local time, or the same exception when the formatter throws.
\<close>

theorem noGroup_messages_identical:
  assumes "isNoGroupRow' e (Some k) = Inr True"
  shows "buildEmailSubject' e (Some k) =
           bindE (formatDate e (setHours e (Date_of e (idx k 0)) 12 0 0 0) ''MM-dd'')
             (\<lambda>shortDate. Inr (''NO GROUP for Mendez/Williams City Group on '' @ shortDate))
       \<and> buildEmailBody' e (Some k) = buildEmailSubject' e (Some k)
       \<and> buildGroupMeMessage' e (Some k) = buildEmailSubject' e (Some k)"
  using assms
  by (simp add: buildEmailSubject'_def buildEmailBody'_def buildGroupMeMessage'_def
        getShortDate'_def formatRowDate'_def)

text \<open>
  The row \<open>(2025-12-17, "Desc", "No Group", "Food", "Duty")\<close> of the test suite and a row
  dated 2025-03-02, with a formatter that reads the date: the three texts end in \<open>12-17\<close>
  on the first row and in \<open>03-02\<close> on the second.
\<close>

theorem noGroup_messages_identical_witness:
  "isNoGroupRow' utcFormatEnv (Some noGroupRow) = Inr True
   \<and> buildEmailSubject' utcFormatEnv (Some noGroupRow) = Inr ''NO GROUP for Mendez/Williams City Group on 12-17''
   \<and> buildEmailBody' utcFormatEnv (Some noGroupRow) = Inr ''NO GROUP for Mendez/Williams City Group on 12-17''
   \<and> buildGroupMeMessage' utcFormatEnv (Some noGroupRow) = Inr ''NO GROUP for Mendez/Williams City Group on 12-17''
   \<and> isNoGroupRow' utcFormatEnv (Some noGroupRowMarch) = Inr True
   \<and> buildEmailSubject' utcFormatEnv (Some noGroupRowMarch) = Inr ''NO GROUP for Mendez/Williams City Group on 03-02''
   \<and> buildEmailBody' utcFormatEnv (Some noGroupRowMarch) = Inr ''NO GROUP for Mendez/Williams City Group on 03-02''
   \<and> buildGroupMeMessage' utcFormatEnv (Some noGroupRowMarch) = Inr ''NO GROUP for Mendez/Williams City Group on 03-02''"
proof -
  have ng: "isNoGroupRow' utcFormatEnv (Some noGroupRow) = Inr True" by code_simp
  have sd: "formatDate utcFormatEnv
      (setHours utcFormatEnv (Date_of utcFormatEnv (idx noGroupRow 0)) 12 0 0 0) ''MM-dd''
        = Inr ''12-17''"
    by code_simp
  have ng2: "isNoGroupRow' utcFormatEnv (Some noGroupRowMarch) = Inr True" by code_simp
  have sd2: "formatDate utcFormatEnv
      (setHours utcFormatEnv (Date_of utcFormatEnv (idx noGroupRowMarch 0)) 12 0 0 0) ''MM-dd''
        = Inr ''03-02''"
    by code_simp
  show ?thesis
    using noGroup_messages_identical [OF ng] noGroup_messages_identical [OF ng2] ng sd ng2 sd2
    by simp
qed

text \<open>
  C7: the reminder that \<open>performReminderSend_\<close> composes from the table and the optional
  base date combines the selection with the three builders: it exists exactly when the three
  builders return on the row that \<open>getNextUpcomingRow_\<close> selects, and its subject, email body
  and chat message are their results. When no row is selected it holds the three fixed
  texts of the \<open>null\<close> row.
\<close>

theorem reminder_is_selection_then_builders:
  "(performReminderSend_reminder e data base = Inr r \<longleftrightarrow>
      (\<exists>sel. getNextUpcomingRow' e data base = Inr sel
         \<and> buildEmailSubject' e sel = Inr (subject r)
         \<and> buildEmailBody' e sel = Inr (emailBody r)
         \<and> buildGroupMeMessage' e sel = Inr (message r)
         \<and> row r = sel))
   \<and> (getNextUpcomingRow' e data base = Inr None \<longrightarrow>
        performReminderSend_reminder e data base =
          Inr \<lparr>subject = ''Reminder for Mendez/Williams City Group'',
               emailBody = ''No upcoming events found.'',
               message = ''Reminder for Mendez/Williams City Group'',
               row = None\<rparr>)"
proof
  show "performReminderSend_reminder e data base = Inr r \<longleftrightarrow>
      (\<exists>sel. getNextUpcomingRow' e data base = Inr sel
         \<and> buildEmailSubject' e sel = Inr (subject r)
         \<and> buildEmailBody' e sel = Inr (emailBody r)
         \<and> buildGroupMeMessage' e sel = Inr (message r)
         \<and> row r = sel)"
    by (cases r) (auto simp: performReminderSend_reminder_def composeReminder'_def bindE_eq_Inr)
next
  show "getNextUpcomingRow' e data base = Inr None \<longrightarrow>
        performReminderSend_reminder e data base =
          Inr \<lparr>subject = ''Reminder for Mendez/Williams City Group'',
               emailBody = ''No upcoming events found.'',
               message = ''Reminder for Mendez/Williams City Group'',
               row = None\<rparr>"
    by (simp add: performReminderSend_reminder_def composeReminder'_def
        buildEmailSubject'_def buildEmailBody'_def buildGroupMeMessage'_def)
qed

text \<open>
  On the table of the test suite the reminder is built from the row of 12-19; on a table
  with a header only it is the reminder of the \<open>null\<close> row.
\<close>

theorem reminder_is_selection_then_builders_witness:
  "getNextUpcomingRow' testEnv testTable Undefined = Inr (Some (testTable ! 2))
   \<and> performReminderSend_reminder testEnv testTable Undefined =
          Inr \<lparr>subject = ''Reminder for Mendez/Williams City Group on 12-17'',
               emailBody = nl @ ''  <p><strong>Date:</strong> FORMATTED_DATE</p>'' @ nl
                 @ ''  <p><strong>Description:</strong> soon</p>'' @ nl
                 @ ''  <p><strong>Location:</strong> loc</p>'' @ nl
                 @ ''  <p><strong>Food Theme:</strong> food</p>'' @ nl
                 @ ''  <p><strong>Childcare Duty:</strong> cc</p>'' @ nl
                 @ ''  <p><a href='' @ dq
                 @ ''https://docs.google.com/spreadsheets/d/SHEET123/edit?usp=sharing'' @ dq
                 @ ''>Click here to sign up</a></p>'' @ nl,
               message = ''Reminder for Mendez/Williams City Group on 12-17'' @ nl
                 @ ''Description: soon'' @ nl @ ''Location: loc'' @ nl
                 @ ''Food Theme: food'' @ nl @ ''Childcare Duty: cc'' @ nl
                 @ ''Sign up: https://docs.google.com/spreadsheets/d/SHEET123/edit?usp=sharing'',
               row = Some (testTable ! 2)\<rparr>
   \<and> getNextUpcomingRow' testEnv [testTable ! 0] Undefined = Inr None
   \<and> performReminderSend_reminder testEnv [testTable ! 0] Undefined =
          Inr \<lparr>subject = ''Reminder for Mendez/Williams City Group'',
               emailBody = ''No upcoming events found.'',
               message = ''Reminder for Mendez/Williams City Group'',
               row = None\<rparr>"
proof -
  let ?b = "nl @ ''  <p><strong>Date:</strong> FORMATTED_DATE</p>'' @ nl
                 @ ''  <p><strong>Description:</strong> soon</p>'' @ nl
                 @ ''  <p><strong>Location:</strong> loc</p>'' @ nl
                 @ ''  <p><strong>Food Theme:</strong> food</p>'' @ nl
                 @ ''  <p><strong>Childcare Duty:</strong> cc</p>'' @ nl
                 @ ''  <p><a href='' @ dq
                 @ ''https://docs.google.com/spreadsheets/d/SHEET123/edit?usp=sharing'' @ dq
                 @ ''>Click here to sign up</a></p>'' @ nl"
  let ?m = "''Reminder for Mendez/Williams City Group on 12-17'' @ nl
                 @ ''Description: soon'' @ nl @ ''Location: loc'' @ nl
                 @ ''Food Theme: food'' @ nl @ ''Childcare Duty: cc'' @ nl
                 @ ''Sign up: https://docs.google.com/spreadsheets/d/SHEET123/edit?usp=sharing''"
  let ?r = "\<lparr>subject = ''Reminder for Mendez/Williams City Group on 12-17'', emailBody = ?b,
             message = ?m, row = Some (testTable ! 2)\<rparr>"
  have sel: "getNextUpcomingRow' testEnv testTable Undefined = Inr (Some (testTable ! 2))"
    by code_simp
  have none: "getNextUpcomingRow' testEnv [testTable ! 0] Undefined = Inr None"
    by code_simp
  have b: "buildEmailBody' testEnv (Some (testTable ! 2)) = Inr ?b"
    by code_simp
  have m: "buildGroupMeMessage' testEnv (Some (testTable ! 2)) = Inr ?m"
    by code_simp
  have s: "buildEmailSubject' testEnv (Some (testTable ! 2))
             = Inr ''Reminder for Mendez/Williams City Group on 12-17''"
    by code_simp
  have full: "performReminderSend_reminder testEnv testTable Undefined = Inr ?r"
    using reminder_is_selection_then_builders [of testEnv testTable Undefined ?r] sel s b m
    by simp
  have empty: "performReminderSend_reminder testEnv [testTable ! 0] Undefined =
          Inr \<lparr>subject = ''Reminder for Mendez/Williams City Group'',
               emailBody = ''No upcoming events found.'',
               message = ''Reminder for Mendez/Williams City Group'',
               row = None\<rparr>"
    using reminder_is_selection_then_builders [of testEnv "[testTable ! 0]" Undefined] none
    by simp
  show ?thesis using sel full none empty by simp
qed

section \<open>Properties of the patterns\<close>

lemma Nil_in_conc: "[] \<in> conc A B \<longleftrightarrow> [] \<in> A \<and> [] \<in> B"
  by (auto simp: conc_def)

lemma Cons_in_conc:
  "c # w \<in> conc A B \<longleftrightarrow>
     (\<exists>u v. w = u @ v \<and> c # u \<in> A \<and> v \<in> B) \<or> ([] \<in> A \<and> c # w \<in> B)"
proof
  assume "c # w \<in> conc A B"
  then obtain x y where xy: "c # w = x @ y" "x \<in> A" "y \<in> B"
    by (auto simp: conc_def)
  show "(\<exists>u v. w = u @ v \<and> c # u \<in> A \<and> v \<in> B) \<or> ([] \<in> A \<and> c # w \<in> B)"
  proof (cases x)
    case Nil
    with xy show ?thesis by simp
  next
    case (Cons a x')
    with xy have "w = x' @ y" "c # x' \<in> A" by simp_all
    with xy(3) show ?thesis by blast
  qed
next
  assume "(\<exists>u v. w = u @ v \<and> c # u \<in> A \<and> v \<in> B) \<or> ([] \<in> A \<and> c # w \<in> B)"
  then show "c # w \<in> conc A B"
  proof
    assume "\<exists>u v. w = u @ v \<and> c # u \<in> A \<and> v \<in> B"
    then obtain u v where "w = u @ v" "c # u \<in> A" "v \<in> B" by blast
    then have "c # w = (c # u) @ v" "c # u \<in> A" "v \<in> B" by simp_all
    then show ?thesis unfolding conc_def by blast
  next
    assume "[] \<in> A \<and> c # w \<in> B"
    then have "c # w = [] @ (c # w)" "[] \<in> A" "c # w \<in> B" by simp_all
    then show ?thesis unfolding conc_def by blast
  qed
qed

lemma star_Cons_split:
  assumes "x \<in> star A" and "x = c # w"
  shows "\<exists>u v. w = u @ v \<and> c # u \<in> A \<and> v \<in> star A"
  using assms
proof (induction rule: star.induct)
  case star_empty
  then show ?case by simp
next
  case (star_more u v)
  show ?case
  proof (cases u)
    case Nil
    with star_more show ?thesis by simp
  next
    case (Cons a u')
    with star_more.prems have "w = u' @ v" "a = c" by simp_all
    with Cons star_more.hyps show ?thesis by blast
  qed
qed

lemma Cons_in_star:
  "c # w \<in> star A \<longleftrightarrow> (\<exists>u v. w = u @ v \<and> c # u \<in> A \<and> v \<in> star A)"
proof
  assume "c # w \<in> star A"
  then show "\<exists>u v. w = u @ v \<and> c # u \<in> A \<and> v \<in> star A"
    by (rule star_Cons_split) simp
next
  assume "\<exists>u v. w = u @ v \<and> c # u \<in> A \<and> v \<in> star A"
  then obtain u v where uv: "w = u @ v" "c # u \<in> A" "v \<in> star A" by blast
  then have "(c # u) @ v \<in> star A" by (intro star_more)
  with uv(1) show "c # w \<in> star A" by simp
qed

lemma nullable_lang: "nullable r \<longleftrightarrow> [] \<in> lang r"
  by (induction r) (simp_all add: Nil_in_conc star_empty)

lemma in_conc: "w \<in> conc A B \<longleftrightarrow> (\<exists>u v. w = u @ v \<and> u \<in> A \<and> v \<in> B)"
  by (auto simp: conc_def)

lemma lang_deriv: "w \<in> lang (deriv c r) \<longleftrightarrow> c # w \<in> lang r"
proof (induction r arbitrary: w)
  case (Cat r1 r2)
  have "w \<in> lang (deriv c (Cat r1 r2)) \<longleftrightarrow>
          (\<exists>u v. w = u @ v \<and> c # u \<in> lang r1 \<and> v \<in> lang r2) \<or> ([] \<in> lang r1 \<and> c # w \<in> lang r2)"
    using Cat by (auto simp: in_conc nullable_lang)
  then show ?case by (simp add: Cons_in_conc)
next
  case (Many r)
  have "w \<in> lang (deriv c (Many r)) \<longleftrightarrow>
          (\<exists>u v. w = u @ v \<and> c # u \<in> lang r \<and> v \<in> star (lang r))"
    using Many by (simp add: in_conc)
  then show ?case by (simp add: Cons_in_star)
qed auto

lemma test_lang: "test r s \<longleftrightarrow> s \<in> lang r"
  by (induction s arbitrary: r) (simp_all add: nullable_lang lang_deriv)

lemma in_lang_Class: "w \<in> lang (Class p) \<longleftrightarrow> (\<exists>c. w = [c] \<and> p c)"
  by auto

lemma in_lang_Lit: "w \<in> lang (Lit c) \<longleftrightarrow> w = [c]"
  by (auto simp: Lit_def)

lemma in_lang_Opt: "w \<in> lang (Opt r) \<longleftrightarrow> w = [] \<or> w \<in> lang r"
  by (auto simp: Opt_def)

lemma star_Class: "w \<in> star {[c] |c. p c} \<longleftrightarrow> list_all p w"
proof
  assume "w \<in> star {[c] |c. p c}"
  then show "list_all p w"
    by (induction rule: star.induct) auto
next
  assume "list_all p w"
  then show "w \<in> star {[c] |c. p c}"
  proof (induction w)
    case Nil
    show ?case by (rule star_empty)
  next
    case (Cons c w)
    then have "[c] \<in> {[c] |c. p c}" "w \<in> star {[c] |c. p c}" by simp_all
    then have "[c] @ w \<in> star {[c] |c. p c}" by (rule star_more)
    then show ?case by simp
  qed
qed

lemma in_lang_Some1_Class: "w \<in> lang (Some1 (Class p)) \<longleftrightarrow> w \<noteq> [] \<and> list_all p w"
proof (cases w)
  case Nil
  then show ?thesis by (simp add: Some1_def in_conc)
next
  case (Cons c w')
  have "c # w' \<in> conc (lang (Class p)) (star (lang (Class p))) \<longleftrightarrow> p c \<and> list_all p w'"
    by (auto simp: Cons_in_conc star_Class)
  with Cons show ?thesis by (simp add: Some1_def)
qed

lemma email_rx_shape: "s \<in> lang email_rx \<longleftrightarrow> emailShape s"
proof
  assume "s \<in> lang email_rx"
  then show "emailShape s"
    unfolding email_rx_def lang.simps(4) in_conc in_lang_Some1_Class in_lang_Lit emailShape_def
    by auto
next
  assume "emailShape s"
  then obtain a b c where abc: "s = a @ ''@'' @ b @ ''.'' @ c"
      "a \<noteq> []" "list_all notSpaceAt a" "b \<noteq> []" "list_all notSpaceAt b"
      "c \<noteq> []" "list_all notSpaceAt c"
    unfolding emailShape_def by blast
  have tld: "''.'' @ c \<in> lang (Cat (Lit (CHR ''.'')) (Some1 (Class notSpaceAt)))"
    unfolding lang.simps(4) in_conc in_lang_Some1_Class in_lang_Lit using abc(6,7) by blast
  have dom: "b @ ''.'' @ c \<in> lang (Cat (Some1 (Class notSpaceAt))
        (Cat (Lit (CHR ''.'')) (Some1 (Class notSpaceAt))))"
    unfolding lang.simps(4)[of "Some1 (Class notSpaceAt)"] in_conc[of "b @ ''.'' @ c"]
      in_lang_Some1_Class
    using abc(4,5) tld by blast
  have at: "''@'' @ b @ ''.'' @ c \<in> lang (Cat (Lit (CHR ''@'')) (Cat (Some1 (Class notSpaceAt))
        (Cat (Lit (CHR ''.'')) (Some1 (Class notSpaceAt)))))"
    unfolding lang.simps(4)[of "Lit (CHR ''@'')"] in_conc[of "''@'' @ b @ ''.'' @ c"] in_lang_Lit
    using dom by blast
  show "s \<in> lang email_rx"
    unfolding email_rx_def lang.simps(4)[of "Some1 (Class notSpaceAt)"] abc(1)
      in_conc[of "a @ ''@'' @ b @ ''.'' @ c"] in_lang_Some1_Class
    using abc(2,3) at by blast
qed

lemma isValidEmail_iff: "isValidEmail' s \<longleftrightarrow> length s \<le> 320 \<and> emailShape s"
proof -
  have "\<not> emailShape []" by (simp add: emailShape_def)
  then show ?thesis
    by (auto simp: isValidEmail'_def test_lang email_rx_shape)
qed

section \<open>Properties of the recipient check\<close>

lemma normalizeRecipients_Str:
  "normalizeRecipients e (map Str cs) = Inr (map trim cs)"
  by (induction cs) (simp_all add: js_or_def)

lemma partitionRecipients_filter:
  "partitionRecipients rs v i =
     (v @ filter isValidEmail' rs, i @ filter (\<lambda>r. \<not> isValidEmail' r) rs)"
  by (induction rs arbitrary: v i) simp_all

text \<open>
  C8: a candidate string is normalized by trimming. A normalized candidate is valid exactly
  when it has at most 320 characters and the shape of \<open>emailShape\<close>. The candidates are
  split into the valid and the invalid ones, each list in the order of the input; the three
  candidates of the test suite split into two valid addresses and one invalid entry.
\<close>

theorem recipients_partitioned:
  "(isValidEmail' s \<longleftrightarrow> length s \<le> 320 \<and> emailShape s)
   \<and> validatedRecipients e (map Str cs) =
       Inr (filter isValidEmail' (map trim cs), filter (\<lambda>r. \<not> isValidEmail' r) (map trim cs))
   \<and> validatedRecipients e [Str ''a@example.com'', Str ''not-an-email'', Str ''b@test.org'']
       = Inr ([''a@example.com'', ''b@test.org''], [''not-an-email''])"
proof (intro conjI)
  show "isValidEmail' s \<longleftrightarrow> length s \<le> 320 \<and> emailShape s"
    by (rule isValidEmail_iff)
next
  show "validatedRecipients e (map Str cs) =
       Inr (filter isValidEmail' (map trim cs), filter (\<lambda>r. \<not> isValidEmail' r) (map trim cs))"
    by (simp add: validatedRecipients_def normalizeRecipients_Str partitionRecipients_filter)
next
  have n: "normalizeRecipients e [Str ''a@example.com'', Str ''not-an-email'', Str ''b@test.org'']
      = Inr (map trim [''a@example.com'', ''not-an-email'', ''b@test.org''])"
    using normalizeRecipients_Str[of e "[''a@example.com'', ''not-an-email'', ''b@test.org'']"]
    by simp
  have p: "partitionRecipients (map trim [''a@example.com'', ''not-an-email'', ''b@test.org'']) [] []
      = ([''a@example.com'', ''b@test.org''], [''not-an-email''])"
    by code_simp
  show "validatedRecipients e [Str ''a@example.com'', Str ''not-an-email'', Str ''b@test.org'']
       = Inr ([''a@example.com'', ''b@test.org''], [''not-an-email''])"
    by (simp only: validatedRecipients_def n p bindE_simps)
qed

lemma send_example:
  "sendEmailToRecipients' testEnv ''Sub'' ''Body''
     (Some [Str ''a@test.com'', Str ''not-an-email'', Str ''b@test.com''])
   = Inr [Log ''Invalid email recipients provided: not-an-email'',
          SendEmail ''a@test.com,b@test.com'' ''Sub'' ''Body'']"
  by code_simp

section \<open>Properties of the base date\<close>

lemma numberToString_now [simp]: "numberToString (e\<lparr>now := n\<rparr>) = numberToString e"
  by (intro ext) (simp add: numberToString_def)

lemma toString_method_now [simp]:
  "toString_method (e\<lparr>now := n\<rparr>) v = toString_method e v"
  by (cases v) simp_all

lemma LocalTime_now [simp]: "LocalTime (e\<lparr>now := n\<rparr>) = LocalTime e"
  by (intro ext) (simp add: LocalTime_def)

lemma UTC_now [simp]: "UTC (e\<lparr>now := n\<rparr>) = UTC e"
  by (intro ext) (simp add: UTC_def)

lemma setHours_now [simp]: "setHours (e\<lparr>now := n\<rparr>) = setHours e"
  by (intro ext) (simp add: setHours_def split: option.splits)

lemma Date_of_now [simp]: "Date_of (e\<lparr>now := n\<rparr>) v = Date_of e v"
  by (cases v) (simp_all add: Date_of_def)

lemma Date_of_Str: "Date_of e (Str s) = dateParse e s"
  by (simp add: Date_of_def)

lemma Date_ymd_now [simp]: "Date_ymd (e\<lparr>now := n\<rparr>) = Date_ymd e"
  by (intro ext) (simp add: Date_ymd_def)

lemma inWindow_now [simp]: "inWindow (e\<lparr>now := n\<rparr>) = inWindow e"
  by (intro ext) (simp add: inWindow_def)

lemma windowEnd_now [simp]: "windowEnd (e\<lparr>now := n\<rparr>) = windowEnd e"
  by (intro ext) (simp add: windowEnd_def setDate_def getDate_def split: option.splits)

lemma parseBaseDate_without_clock:
  assumes "\<not> readsClock e optDate"
  shows "parseBaseDate' (e\<lparr>now := n\<rparr>) optDate = parseBaseDate' e optDate"
  using assms
  by (cases optDate)
     (auto simp: parseBaseDate'_def readsClock_def js_or_def match3_def Let_def Date_of_Str
           split: option.splits prod.splits if_splits)

lemma parseBaseDate_with_clock:
  assumes "readsClock e optDate"
  shows "parseBaseDate' e optDate = Inr (setHours e (Some (now e)) 12 0 0 0)"
  using assms
  by (cases optDate)
     (auto simp: parseBaseDate'_def readsClock_def js_or_def match3_def Let_def Date_now_def
                 Date_of_Str
           split: option.splits prod.splits if_splits)

lemma getNextUpcomingRow_without_clock:
  assumes "\<not> readsClock e optDate"
  shows "getNextUpcomingRow' (e\<lparr>now := n\<rparr>) data optDate = getNextUpcomingRow' e data optDate"
proof -
  obtain today where t: "parseBaseDate' e optDate = Inr today"
    using parseBaseDate_returns by blast
  then have "parseBaseDate' (e\<lparr>now := n\<rparr>) optDate = Inr today"
    using parseBaseDate_without_clock[OF assms] by simp
  then show ?thesis
    using t by (simp add: getNextUpcomingRow_find)
qed

text \<open>
  C9 (amended): the current time is read on three paths of \<open>parseBaseDate_\<close>, not only
  when no input is given: on a falsy input, on a blank string, and on a string that matches
  neither pattern and that the generic parse rejects; there the result is the current
  moment at noon. On every other explicitly supplied input (a Date object, a string that
  matches a pattern or that the generic parse accepts) two evaluations at different current
  times return equal results, and so does \<open>getNextUpcomingRow_\<close> on the same table.
\<close>

theorem clock_read_only_on_fallback:
  "(\<not> readsClock e optDate \<longrightarrow>
        parseBaseDate' (e\<lparr>now := n1\<rparr>) optDate = parseBaseDate' (e\<lparr>now := n2\<rparr>) optDate
      \<and> getNextUpcomingRow' (e\<lparr>now := n1\<rparr>) data optDate
          = getNextUpcomingRow' (e\<lparr>now := n2\<rparr>) data optDate)
   \<and> (readsClock e optDate \<longrightarrow>
        parseBaseDate' e optDate = Inr (setHours e (Some (now e)) 12 0 0 0))"
  by (simp add: parseBaseDate_without_clock getNextUpcomingRow_without_clock
        parseBaseDate_with_clock)

theorem clock_read_only_on_fallback_witness:
  "\<not> readsClock testEnv (Str ''12/17/25'')
   \<and> parseBaseDate' (testEnv\<lparr>now := 0\<rparr>) (Str ''12/17/25'')
       = parseBaseDate' (testEnv\<lparr>now := 86400000\<rparr>) (Str ''12/17/25'')
   \<and> getNextUpcomingRow' (testEnv\<lparr>now := 0\<rparr>) testTable (Str ''12/17/25'')
       = getNextUpcomingRow' (testEnv\<lparr>now := 86400000\<rparr>) testTable (Str ''12/17/25'')
   \<and> readsClock testEnv (Str ''garbage'')
   \<and> parseBaseDate' testEnv (Str ''garbage'') = Inr (Some 1765972800000)"
proof -
  have a: "\<not> readsClock testEnv (Str ''12/17/25'')" by code_simp
  have b: "readsClock testEnv (Str ''garbage'')" by code_simp
  have c: "setHours testEnv (Some (now testEnv)) 12 0 0 0 = Some 1765972800000" by code_simp
  show ?thesis
    using clock_read_only_on_fallback [of testEnv "Str ''12/17/25''" 0 86400000 testTable]
          clock_read_only_on_fallback [of testEnv "Str ''garbage''"] a b c
    by simp
qed

text \<open>
  C9 as stated fails: the explicitly supplied string \<open>garbage\<close> falls back to the current
  moment, so two evaluations at different current times differ.
\<close>

theorem explicit_input_reads_clock:
  "truthy (Str ''garbage'')
   \<and> parseBaseDate' (testEnv\<lparr>now := 0\<rparr>) (Str ''garbage'') = Inr (Some 43200000)
   \<and> parseBaseDate' (testEnv\<lparr>now := 86400000\<rparr>) (Str ''garbage'') = Inr (Some 129600000)
   \<and> parseBaseDate' (testEnv\<lparr>now := 0\<rparr>) (Str ''garbage'')
       \<noteq> parseBaseDate' (testEnv\<lparr>now := 86400000\<rparr>) (Str ''garbage'')"
proof -
  have a: "parseBaseDate' (testEnv\<lparr>now := 0\<rparr>) (Str ''garbage'') = Inr (Some 43200000)"
    by code_simp
  have b: "parseBaseDate' (testEnv\<lparr>now := 86400000\<rparr>) (Str ''garbage'') = Inr (Some 129600000)"
    by code_simp
  show ?thesis using a b by simp
qed

text \<open>
  C4: \<open>parseBaseDate_\<close> does not always return a usable day. It never throws
  (\<open>parseBaseDate_returns\<close>), and a string that fails the generic parse falls back to the
  current moment, but a Date object that is an Invalid Date is copied and returned as an
  Invalid Date: the path of Date objects lacks the validity check that the path of generic
  strings has. With such a base date \<open>getNextUpcomingRow_\<close> returns \<open>null\<close> on every table.
\<close>

theorem invalid_Date_passes_through:
  "parseBaseDate' e (DateObj None) = Inr None
   \<and> getNextUpcomingRow' e data (DateObj None) = Inr None"
proof -
  have p: "parseBaseDate' e (DateObj None) = Inr None"
    by (simp add: parseBaseDate'_def getTime_def Date_of_def setHours_def)
  have "\<not> inWindow e None m k" for m k
    by (simp add: inWindow_iff)
  then have "find (inWindow e None (windowEnd e None)) (drop 1 data) = None"
    by (simp add: find_None_iff)
  with p show ?thesis by (simp add: getNextUpcomingRow_find)
qed

section \<open>Properties of the calendar\<close>

lemma floor_div_bounds:
  fixes x k :: int
  assumes "0 < k"
  shows "k * (x div k) \<le> x" and "x < k * (x div k) + k"
proof -
  have "x = k * (x div k) + x mod k" by simp
  moreover have "0 \<le> x mod k" "x mod k < k" using assms by simp_all
  ultimately show "k * (x div k) \<le> x" and "x < k * (x div k) + k" by linarith+
qed

lemma DayFromYear_lower: "146097 * (y - 1970) - 506 \<le> 400 * DayFromYear y"
proof -
  define a where "a = (y - 1969) div 4"
  define b where "b = (y - 1901) div 100"
  define c where "c = (y - 1601) div 400"
  have a: "y - 1969 < 4 * a + 4" unfolding a_def by (rule floor_div_bounds) simp
  have b: "100 * b \<le> y - 1901" unfolding b_def by (rule floor_div_bounds) simp
  have c: "y - 1601 < 400 * c + 400" unfolding c_def by (rule floor_div_bounds) simp
  have d: "DayFromYear y = 365 * (y - 1970) + a - b + c"
    by (simp add: DayFromYear_def a_def b_def c_def)
  have a': "100 * (y - 1969) + 100 \<le> 400 * a + 400" using a by simp
  have b': "400 * b \<le> 4 * (y - 1901)" using b by simp
  show ?thesis unfolding d using a' b' c by simp
qed

lemma DayFromYear_upper: "400 * DayFromYear y \<le> 146097 * (y - 1970) + 589"
proof -
  define a where "a = (y - 1969) div 4"
  define b where "b = (y - 1901) div 100"
  define c where "c = (y - 1601) div 400"
  have a: "4 * a \<le> y - 1969" unfolding a_def by (rule floor_div_bounds) simp
  have b: "y - 1901 < 100 * b + 100" unfolding b_def by (rule floor_div_bounds) simp
  have c: "400 * c \<le> y - 1601" unfolding c_def by (rule floor_div_bounds) simp
  have d: "DayFromYear y = 365 * (y - 1970) + a - b + c"
    by (simp add: DayFromYear_def a_def b_def c_def)
  have a': "400 * a \<le> 100 * (y - 1969)" using a by simp
  have b': "4 * (y - 1901) + 4 \<le> 400 * b + 400" using b by simp
  show ?thesis unfolding d using a' b' c by simp
qed

lemma YearFromDay_correct:
  "DayFromYear (YearFromDay d) \<le> d \<and> d < DayFromYear (YearFromDay d + 1)"
proof -
  define y0 where "y0 = 1970 + (400 * d) div 146097"
  have q1: "146097 * (y0 - 1970) \<le> 400 * d"
    using floor_div_bounds(1)[of 146097 "400 * d"] by (simp add: y0_def)
  have q2: "400 * d < 146097 * (y0 - 1970) + 146097"
    using floor_div_bounds(2)[of 146097 "400 * d"] by (simp add: y0_def)
  have "400 * DayFromYear (y0 - 1) \<le> 400 * d"
    using DayFromYear_upper[of "y0 - 1"] q1 by simp
  then have lo: "DayFromYear (y0 - 1) \<le> d" by simp
  have "400 * d < 400 * DayFromYear (y0 + 2)"
    using DayFromYear_lower[of "y0 + 2"] q2 by simp
  then have hi: "d < DayFromYear (y0 + 1 + 1)" by (simp add: add.commute)
  have e: "y0 - 1 + 1 = y0" by simp
  show ?thesis
  proof (cases "DayFromYear (y0 + 1) \<le> d")
    case True
    then show ?thesis using hi by (simp add: YearFromDay_def Let_def y0_def[symmetric])
  next
    case False
    then show ?thesis using lo e by (simp add: YearFromDay_def Let_def y0_def[symmetric] not_le)
  qed
qed

lemma div_step:
  fixes x k :: int
  assumes "1 < k"
  shows "(x + 1) div k = x div k + (if (x + 1) mod k = 0 then 1 else 0)"
proof -
  define q r where "q = x div k" and "r = x mod k"
  have x: "x = r + k * q" by (simp add: q_def r_def)
  have r: "0 \<le> r" "r < k" using assms by (simp_all add: r_def)
  have x1: "x + 1 = (r + 1) + k * q" using x by simp
  have k0: "k \<noteq> 0" using assms by simp
  have d: "(x + 1) div k = q + (r + 1) div k"
    unfolding x1 using k0 by (rule div_mult_self2)
  have m: "(x + 1) mod k = (r + 1) mod k"
    unfolding x1 by (rule mod_mult_self2)
  show ?thesis
  proof (cases "r + 1 = k")
    case True
    then show ?thesis using d m assms by (simp add: q_def)
  next
    case False
    with r have "r + 1 < k" by simp
    then have "(r + 1) div k = 0" "(r + 1) mod k = r + 1" using r by simp_all
    then show ?thesis using d m r by (simp add: q_def)
  qed
qed

lemma mod_shift:
  fixes y :: int
  shows "(y - 1968) mod 4 = y mod 4" "(y - 1900) mod 100 = y mod 100" "(y - 1600) mod 400 = y mod 400"
proof -
  have "(y - 1968) mod 4 = (y + 4 * (- 492)) mod 4" by simp
  then show "(y - 1968) mod 4 = y mod 4" by (simp only: mod_mult_self2)
  have "(y - 1900) mod 100 = (y + 100 * (- 19)) mod 100" by simp
  then show "(y - 1900) mod 100 = y mod 100" by (simp only: mod_mult_self2)
  have "(y - 1600) mod 400 = (y + 400 * (- 4)) mod 400" by simp
  then show "(y - 1600) mod 400 = y mod 400" by (simp only: mod_mult_self2)
qed

lemma leap_divisibility:
  fixes y :: int
  shows "y mod 100 = 0 \<Longrightarrow> y mod 4 = 0" "y mod 400 = 0 \<Longrightarrow> y mod 100 = 0"
proof -
  have "(4::int) dvd 100" "(100::int) dvd 400" by simp_all
  then show "y mod 100 = 0 \<Longrightarrow> y mod 4 = 0" "y mod 400 = 0 \<Longrightarrow> y mod 100 = 0"
    by (auto simp: mod_eq_0_iff_dvd elim: dvd_trans)
qed

lemma DayFromYear_Suc: "DayFromYear (y + 1) = DayFromYear y + DaysInYear y"
proof -
  have a: "(y + 1 - 1969) div 4 = (y - 1969) div 4 + (if y mod 4 = 0 then 1 else 0)"
    using div_step[of 4 "y - 1969"] mod_shift(1)[of y] by (simp add: algebra_simps)
  have b: "(y + 1 - 1901) div 100 = (y - 1901) div 100 + (if y mod 100 = 0 then 1 else 0)"
    using div_step[of 100 "y - 1901"] mod_shift(2)[of y] by (simp add: algebra_simps)
  have c: "(y + 1 - 1601) div 400 = (y - 1601) div 400 + (if y mod 400 = 0 then 1 else 0)"
    using div_step[of 400 "y - 1601"] mod_shift(3)[of y] by (simp add: algebra_simps)
  show ?thesis
    unfolding DayFromYear_def a b c DaysInYear_def
    using leap_divisibility[of y] by auto
qed

lemma DaysInYear_cases: "DaysInYear y = 365 \<or> DaysInYear y = 366"
  by (simp add: DaysInYear_def)

lemma DayFromYear_mono:
  assumes "y \<le> y'"
  shows "DayFromYear y \<le> DayFromYear y'"
  using assms
proof (induction y' rule: int_ge_induct)
  case base
  show ?case by simp
next
  case (step i)
  then show ?case
    using DayFromYear_Suc[of i] DaysInYear_cases[of i] by linarith
qed

lemma YearFromDay_unique:
  assumes "DayFromYear y \<le> d" and "d < DayFromYear (y + 1)"
  shows "YearFromDay d = y"
proof (rule ccontr)
  assume ne: "YearFromDay d \<noteq> y"
  let ?Y = "YearFromDay d"
  have c: "DayFromYear ?Y \<le> d" "d < DayFromYear (?Y + 1)"
    using YearFromDay_correct[of d] by simp_all
  show False
  proof (cases "?Y < y")
    case True
    then have "DayFromYear (?Y + 1) \<le> DayFromYear y" by (intro DayFromYear_mono) simp
    with c assms show False by linarith
  next
    case False
    with ne have "y + 1 \<le> ?Y" by simp
    then have "DayFromYear (y + 1) \<le> DayFromYear ?Y" by (rule DayFromYear_mono)
    with c assms show False by linarith
  qed
qed

lemma Day_in_year:
  assumes "Day t = DayFromYear y + k" and "0 \<le> k" and "k < DaysInYear y"
  shows "YearFromTime t = y" and "DayWithinYear t = k"
    and "InLeapYear t = (if DaysInYear y = 366 then 1 else 0)"
proof -
  have "DayFromYear y \<le> Day t" "Day t < DayFromYear (y + 1)"
    using assms by (simp_all add: DayFromYear_Suc)
  then show y: "YearFromTime t = y"
    unfolding YearFromTime_def by (rule YearFromDay_unique)
  then show "DayWithinYear t = k" using assms(1) by (simp add: DayWithinYear_def)
  show "InLeapYear t = (if DaysInYear y = 366 then 1 else 0)"
    by (simp add: InLeapYear_def y)
qed

lemma daysInMonth_leap:
  assumes "l = (if DaysInYear y = 366 then 1 else 0)"
  shows "daysInMonth y M = (if M = 2 then 28 + l
           else if M = 4 \<or> M = 6 \<or> M = 9 \<or> M = 11 then 30 else 31)"
    and "0 \<le> l" and "l \<le> 1" and "DaysInYear y = 365 + l"
  using assms DaysInYear_cases[of y] by (auto simp: daysInMonth_def)

lemma month_cases:
  fixes M :: int
  assumes "1 \<le> M" and "M \<le> 12"
  shows "M = 1 \<or> M = 2 \<or> M = 3 \<or> M = 4 \<or> M = 5 \<or> M = 6 \<or> M = 7 \<or> M = 8
      \<or> M = 9 \<or> M = 10 \<or> M = 11 \<or> M = 12"
  using assms by arith

lemma monthStart_bounds:
  assumes "1 \<le> M" and "M \<le> 12" and "1 \<le> D" and "D \<le> daysInMonth y M"
  shows "0 \<le> monthStart (M - 1) (if DaysInYear y = 366 then 1 else 0) + D - 1"
    and "monthStart (M - 1) (if DaysInYear y = 366 then 1 else 0) + D - 1 < DaysInYear y"
proof -
  define l :: int where "l = (if DaysInYear y = 366 then 1 else 0)"
  note dm = daysInMonth_leap(1)[OF l_def, of M] daysInMonth_leap(2-4)[OF l_def]
  have D: "D \<le> (if M = 2 then 28 + l else if M = 4 \<or> M = 6 \<or> M = 9 \<or> M = 11 then 30 else 31)"
    using assms(4) dm(1) by simp
  have "0 \<le> monthStart (M - 1) l + D - 1"
    using month_cases[OF assms(1,2)] assms(3) dm(2)
    by (elim disjE) (simp_all add: monthStart_def)
  then show "0 \<le> monthStart (M - 1) (if DaysInYear y = 366 then 1 else 0) + D - 1"
    by (simp only: l_def)
  have "monthStart (M - 1) l + D - 1 < 365 + l"
    using month_cases[OF assms(1,2)] D dm(2,3)
    by (elim disjE) (simp_all add: monthStart_def)
  then show "monthStart (M - 1) (if DaysInYear y = 366 then 1 else 0) + D - 1 < DaysInYear y"
    unfolding l_def[symmetric] by (simp only: dm(4))
qed

lemma Month_Date_of_day:
  assumes "1 \<le> M" and "M \<le> 12" and "1 \<le> D" and "D \<le> daysInMonth y M"
    and "DayWithinYear t = monthStart (M - 1) (if DaysInYear y = 366 then 1 else 0) + D - 1"
    and "InLeapYear t = (if DaysInYear y = 366 then 1 else 0)"
  shows "MonthFromTime t = M - 1" and "DateFromTime t = D"
proof -
  define l :: int where "l = (if DaysInYear y = 366 then 1 else 0)"
  note dm = daysInMonth_leap(1)[OF l_def, of M] daysInMonth_leap(2-4)[OF l_def]
  have D: "D \<le> (if M = 2 then 28 + l else if M = 4 \<or> M = 6 \<or> M = 9 \<or> M = 11 then 30 else 31)"
    using assms(4) dm(1) by simp
  have k: "DayWithinYear t = monthStart (M - 1) l + D - 1" "InLeapYear t = l"
    using assms(5,6) by (simp_all only: l_def)
  show m: "MonthFromTime t = M - 1"
    unfolding MonthFromTime_def Let_def k
    using month_cases[OF assms(1,2)] D assms(3) dm(2,3)
    by (elim disjE) (simp_all add: monthStart_def)
  show "DateFromTime t = D"
    unfolding DateFromTime_def m k by simp
qed

lemma MakeDay_in_range:
  assumes "0 \<le> m" and "m \<le> 11"
  shows "MakeDay y m D = DayFromYear y + monthStart m (if DaysInYear y = 366 then 1 else 0) + D - 1"
proof -
  have "m div 12 = 0" "m mod 12 = m" using assms by simp_all
  then show ?thesis by (simp add: MakeDay_def Let_def)
qed

text \<open>
  \<open>MakeDay\<close> counts from the day on which the month starts: a time on the day that it gives
  for day 1 of month \<open>m\<close> of year \<open>y\<close> has these year, month and day of the month.
\<close>

lemma MakeDay_first_of_month:
  assumes "0 \<le> m" and "m \<le> 11" and "Day t = MakeDay y m 1"
  shows "YearFromTime t = y \<and> MonthFromTime t = m \<and> DateFromTime t = 1"
proof -
  have M: "1 \<le> m + 1" "m + 1 \<le> 12" using assms(1,2) by simp_all
  have D: "(1::int) \<le> 1" "1 \<le> daysInMonth y (m + 1)" by (simp_all add: daysInMonth_def)
  define k where "k = monthStart (m + 1 - 1) (if DaysInYear y = 366 then 1 else 0) + 1 - 1"
  have k: "0 \<le> k" "k < DaysInYear y"
    using monthStart_bounds[OF M D] by (simp_all add: k_def)
  have "Day t = DayFromYear y + k"
    using assms by (simp add: MakeDay_in_range k_def)
  note yy = Day_in_year[OF this k]
  have "DayWithinYear t = monthStart (m + 1 - 1) (if DaysInYear y = 366 then 1 else 0) + 1 - 1"
    using yy(2) by (simp only: k_def)
  note mm = Month_Date_of_day[OF M D this yy(3)]
  show ?thesis using yy(1) mm by simp
qed

text \<open>The fields of a local time at noon of day number \<open>d\<close>.\<close>

lemma noon_fields:
  fixes d :: int
  defines "x \<equiv> MakeDate d (MakeTime 12 0 0 0)"
  shows "Day x = d" and "HourFromTime x = 12" and "MinFromTime x = 0"
    and "SecFromTime x = 0" and "msFromTime x = 0"
proof -
  have x: "x = 43200000 + 86400000 * d" by (simp add: x_def MakeDate_def MakeTime_def msPerDay_def)
  have "x div 86400000 = d + 43200000 div 86400000"
    unfolding x by (rule div_mult_self2) simp
  then show "Day x = d" by (simp add: Day_def msPerDay_def)
  have h: "x = 3600000 * (12 + 24 * d)" unfolding x by simp
  have "x div 3600000 = 12 + 24 * d" unfolding h by simp
  then show "HourFromTime x = 12" by (simp add: HourFromTime_def)
  have mi: "x = 60000 * (60 * (12 + 24 * d))" unfolding x by simp
  have "x div 60000 = 60 * (12 + 24 * d)" unfolding mi by simp
  then show "MinFromTime x = 0" by (simp add: MinFromTime_def)
  have se: "x = 1000 * (60 * (60 * (12 + 24 * d)))" unfolding x by simp
  have "x div 1000 = 60 * (60 * (12 + 24 * d))" unfolding se by simp
  then show "SecFromTime x = 0" by (simp add: SecFromTime_def)
  show "msFromTime x = 0" unfolding se msFromTime_def by simp
qed

lemma midnight_Day: "Day (MakeDate d (MakeTime 0 0 0 0)) = d"
  by (simp add: Day_def MakeDate_def MakeTime_def msPerDay_def)

section \<open>Properties of the date patterns\<close>

lemma in_lang_digit: "w \<in> lang digit \<longleftrightarrow> (\<exists>c. w = [c] \<and> isDigit c)"
  by (auto simp: digit_def)

lemma in_lang_slashOrDash:
  "w \<in> lang slashOrDash \<longleftrightarrow> (\<exists>c. w = [c] \<and> (c = CHR ''/'' \<or> c = CHR ''-''))"
  by (auto simp: slashOrDash_def)

lemma digits_1_2_D:
  assumes "w \<in> lang digits_1_2"
  shows "list_all isDigit w \<and> 1 \<le> length w \<and> length w \<le> 2"
  using assms
  unfolding digits_1_2_def lang.simps(4) in_conc in_lang_digit in_lang_Opt
  by auto

lemma digits_2_4_D:
  assumes "w \<in> lang digits_2_4"
  shows "list_all isDigit w \<and> 2 \<le> length w \<and> length w \<le> 4"
  using assms
  unfolding digits_2_4_def lang.simps(4) in_conc in_lang_digit in_lang_Opt
  by auto

lemma slashDate_D:
  assumes "s \<in> lang slashDate_rx"
  shows "\<exists>g1 c1 g2 c2 g3. s = g1 @ c1 # g2 @ c2 # g3
           \<and> g1 \<in> lang digits_1_2 \<and> (c1 = CHR ''/'' \<or> c1 = CHR ''-'')
           \<and> g2 \<in> lang digits_1_2 \<and> (c2 = CHR ''/'' \<or> c2 = CHR ''-'')
           \<and> g3 \<in> lang digits_2_4"
proof -
  from assms obtain g1 r1 where 1: "s = g1 @ r1" "g1 \<in> lang digits_1_2"
      "r1 \<in> lang (Cat slashOrDash (Cat digits_1_2 (Cat slashOrDash digits_2_4)))"
    unfolding slashDate_rx_def lang.simps(4)[of digits_1_2] in_conc by blast
  from 1(3) obtain c1 r2 where 2: "r1 = c1 # r2" "c1 = CHR ''/'' \<or> c1 = CHR ''-''"
      "r2 \<in> lang (Cat digits_1_2 (Cat slashOrDash digits_2_4))"
    unfolding lang.simps(4)[of slashOrDash] in_conc in_lang_slashOrDash by auto
  from 2(3) obtain g2 r3 where 3: "r2 = g2 @ r3" "g2 \<in> lang digits_1_2"
      "r3 \<in> lang (Cat slashOrDash digits_2_4)"
    unfolding lang.simps(4)[of digits_1_2] in_conc by blast
  from 3(3) obtain c2 g3 where 4: "r3 = c2 # g3" "c2 = CHR ''/'' \<or> c2 = CHR ''-''"
      "g3 \<in> lang digits_2_4"
    unfolding lang.simps(4)[of slashOrDash] in_conc in_lang_slashOrDash by auto
  have "s = g1 @ c1 # g2 @ c2 # g3" using 1(1) 2(1) 3(1) 4(1) by simp
  with 1(2) 2(2) 3(2) 4(2,3) show ?thesis by blast
qed

lemma sep_not_digit: "c = CHR ''/'' \<or> c = CHR ''-'' \<Longrightarrow> \<not> isDigit c"
  by (auto simp: isDigit_def)

lemma digit_not_space: "isDigit c \<Longrightarrow> \<not> isSpace c"
  by (auto simp: isDigit_def isSpace_def)

lemma groups3_split:
  assumes "list_all isDigit g1" and "\<not> isDigit c1" and "list_all isDigit g2" and "\<not> isDigit c2"
  shows "groups3 (g1 @ c1 # g2 @ c2 # g3) = (g1, g2, g3)"
proof -
  have a: "\<forall>x\<in>set g1. isDigit x" "\<forall>x\<in>set g2. isDigit x"
    using assms(1,3) by (simp_all add: list_all_iff)
  have t1: "takeWhile isDigit (g1 @ c1 # g2 @ c2 # g3) = g1"
    using a(1) assms(2) by (simp add: takeWhile_append2)
  have d1: "dropWhile isDigit (g1 @ c1 # g2 @ c2 # g3) = c1 # g2 @ c2 # g3"
    using a(1) assms(2) by (simp add: dropWhile_append2)
  have t2: "takeWhile isDigit (g2 @ c2 # g3) = g2"
    using a(2) assms(4) by (simp add: takeWhile_append2)
  have d2: "dropWhile isDigit (g2 @ c2 # g3) = c2 # g3"
    using a(2) assms(4) by (simp add: dropWhile_append2)
  show ?thesis by (simp add: groups3_def Let_def t1 d1 t2 d2)
qed

lemma trim_id:
  assumes "s \<noteq> []" and "\<not> isSpace (hd s)" and "\<not> isSpace (last s)"
  shows "trim s = s"
proof -
  have "dropWhile isSpace s = s" using assms(1,2) by (cases s) simp_all
  moreover have "dropWhile isSpace (rev s) = rev s"
    using assms(1,3) by (cases "rev s") (simp_all add: hd_rev[symmetric])
  ultimately show ?thesis by (simp add: trim_def)
qed

lemma parseInt_snoc: "parseInt (w @ [c]) = 10 * parseInt w + (int (of_char c) - 48)"
  by (simp add: parseInt_def)

lemma digit_value: "isDigit c \<Longrightarrow> 0 \<le> int (of_char c) - 48 \<and> int (of_char c) - 48 \<le> 9"
  by (auto simp: isDigit_def)

lemma parseInt_bounds:
  assumes "list_all isDigit w"
  shows "0 \<le> parseInt w \<and> parseInt w < 10 ^ length w"
  using assms
proof (induction w rule: rev_induct)
  case Nil
  show ?case by (simp add: parseInt_def)
next
  case (snoc c w)
  then have ih: "0 \<le> parseInt w" "parseInt w < 10 ^ length w" and c: "isDigit c" by simp_all
  from ih(2) have "parseInt w + 1 \<le> 10 ^ length w" by simp
  then have "10 * (parseInt w + 1) \<le> 10 * 10 ^ length w" by (simp only: mult_le_cancel_left_pos)
  with digit_value[OF c] ih(1) show ?case by (simp add: parseInt_snoc)
qed
section \<open>The slash pattern of the base date\<close>

lemma TimeClip_Some: "TimeClip x = Some t \<Longrightarrow> t = x"
  by (simp add: TimeClip_def split: if_splits)

lemma resolvesToSameDay_D:
  assumes "resolvesToSameDay e x"
  shows "TimeClip (UTC e x) = Some (UTC e x)" and "Day (LocalTime e (UTC e x)) = Day x"
  using assms TimeClip_Some[of "UTC e x"]
  by (auto simp: resolvesToSameDay_def split: option.splits)

lemma localTimeExists_D:
  assumes "localTimeExists e x"
  shows "TimeClip (UTC e x) = Some (UTC e x)" and "LocalTime e (UTC e x) = x"
  using assms TimeClip_Some[of "UTC e x"]
  by (auto simp: localTimeExists_def split: option.splits)

text \<open>
  C3 (amended): let \<open>s\<close> match the slash pattern, with groups \<open>m1\<close>, \<open>m2\<close>, \<open>m3\<close> (the three
  runs of digits of \<open>s\<close>), and let \<open>Y\<close> be the third group, plus 2000 when it is below 100.
  When the first group is a month from 1 to 12 and the second a day from 1 to the length of
  that month in \<open>Y\<close>, the Date that the runtime makes of local midnight of that day falls on
  that local day, and local noon of that day exists, \<open>parseBaseDate_\<close> returns the moment
  whose local date is year \<open>Y\<close>, month \<open>m1\<close> (index \<open>m1 - 1\<close>), day \<open>m2\<close> and whose local
  time is 12:00:00.000.
\<close>

theorem slashDate_fields:
  assumes mt: "test slashDate_rx s"
    and gr: "groups3 s = (m1, m2, m3)"
    and yr: "Y = (if parseInt m3 < 100 then parseInt m3 + 2000 else parseInt m3)"
    and mo: "1 \<le> parseInt m1" "parseInt m1 \<le> 12"
    and da: "1 \<le> parseInt m2" "parseInt m2 \<le> daysInMonth Y (parseInt m1)"
    and z0: "resolvesToSameDay e (MakeDate (MakeDay Y (parseInt m1 - 1) (parseInt m2)) (MakeTime 0 0 0 0))"
    and z12: "localTimeExists e (MakeDate (MakeDay Y (parseInt m1 - 1) (parseInt m2)) (MakeTime 12 0 0 0))"
  shows "(\<exists>c1 c2. s = m1 @ c1 # m2 @ c2 # m3
            \<and> list_all isDigit m1 \<and> list_all isDigit m2 \<and> list_all isDigit m3)
       \<and> (\<exists>t. parseBaseDate' e (Str s) = Inr (Some t)
            \<and> YearFromTime (LocalTime e t) = Y
            \<and> MonthFromTime (LocalTime e t) = parseInt m1 - 1
            \<and> DateFromTime (LocalTime e t) = parseInt m2
            \<and> HourFromTime (LocalTime e t) = 12 \<and> MinFromTime (LocalTime e t) = 0
            \<and> SecFromTime (LocalTime e t) = 0 \<and> msFromTime (LocalTime e t) = 0)"
proof -
  from mt have "s \<in> lang slashDate_rx" by (simp add: test_lang)
  then obtain g1 c1 g2 c2 g3 where s: "s = g1 @ c1 # g2 @ c2 # g3"
      and l1: "g1 \<in> lang digits_1_2" and c1: "c1 = CHR ''/'' \<or> c1 = CHR ''-''"
      and l2: "g2 \<in> lang digits_1_2" and c2: "c2 = CHR ''/'' \<or> c2 = CHR ''-''"
      and l3: "g3 \<in> lang digits_2_4"
    using slashDate_D by blast
  note d1 = digits_1_2_D[OF l1] and d2 = digits_1_2_D[OF l2] and d3 = digits_2_4_D[OF l3]
  have "groups3 s = (g1, g2, g3)"
    unfolding s using d1 d2 sep_not_digit[OF c1] sep_not_digit[OF c2]
    by (intro groups3_split) simp_all
  with gr have g: "m1 = g1" "m2 = g2" "m3 = g3" by simp_all
  have shape: "\<exists>c1 c2. s = m1 @ c1 # m2 @ c2 # m3
            \<and> list_all isDigit m1 \<and> list_all isDigit m2 \<and> list_all isDigit m3"
    using s d1 d2 d3 g by blast
  \<comment> \<open>the string is not blank and trimming leaves it as it is\<close>
  have ne: "g1 \<noteq> []" "g3 \<noteq> []" using d1 d3 by auto
  then have "hd s = hd g1" "last s = last g3" "s \<noteq> []" by (simp_all add: s)
  moreover have "isDigit (hd g1)" "isDigit (last g3)"
    using ne d1 d3 by (auto simp: list_all_iff)
  ultimately have tr: "trim s = s" "s \<noteq> []"
    by (simp_all add: trim_id digit_not_space)
  \<comment> \<open>the year is 100 or more, so the constructor does not add 1900\<close>
  have "0 \<le> parseInt m3 \<and> parseInt m3 < 10 ^ length m3"
    using d3 g by (intro parseInt_bounds) simp
  then have Y: "100 \<le> Y" by (simp add: yr)
  \<comment> \<open>the branch of the slash pattern\<close>
  have pb: "parseBaseDate' e (Str s) =
      Inr (setHours e (Date_ymd e Y (parseInt m1 - 1) (parseInt m2)) 12 0 0 0)"
    using tr mt gr by (simp add: parseBaseDate'_def js_or_def match3_def Let_def yr)
  \<comment> \<open>the day number\<close>
  define l :: int where "l = (if DaysInYear Y = 366 then 1 else 0)"
  define k where "k = monthStart (parseInt m1 - 1) l + parseInt m2 - 1"
  define day where "day = DayFromYear Y + k"
  have md: "MakeDay Y (parseInt m1 - 1) (parseInt m2) = day"
    using mo by (simp add: MakeDay_in_range day_def k_def l_def)
  have k: "0 \<le> k" "k < DaysInYear Y"
    using monthStart_bounds[OF mo da] by (simp_all add: k_def l_def)
  \<comment> \<open>local midnight, then local noon\<close>
  let ?mid = "MakeDate day (MakeTime 0 0 0 0)"
  let ?noon = "MakeDate day (MakeTime 12 0 0 0)"
  note mid = resolvesToSameDay_D[OF z0[unfolded md]]
  note noon = localTimeExists_D[OF z12[unfolded md]]
  have ymd: "Date_ymd e Y (parseInt m1 - 1) (parseInt m2) = Some (UTC e ?mid)"
    using Y mid(1) by (simp add: Date_ymd_def md)
  have res: "parseBaseDate' e (Str s) = Inr (Some (UTC e ?noon))"
    by (simp add: pb ymd setHours_def mid(2) midnight_Day noon(1))
  \<comment> \<open>the fields of local noon\<close>
  have dn: "Day ?noon = DayFromYear Y + k"
    using noon_fields(1)[of day] by (simp add: day_def)
  note yy = Day_in_year[OF dn k]
  have dwy: "DayWithinYear ?noon = monthStart (parseInt m1 - 1) (if DaysInYear Y = 366 then 1 else 0) + parseInt m2 - 1"
    using yy(2) by (simp add: k_def l_def)
  note mm = Month_Date_of_day[OF mo da dwy yy(3)]
  have "YearFromTime (LocalTime e (UTC e ?noon)) = Y
            \<and> MonthFromTime (LocalTime e (UTC e ?noon)) = parseInt m1 - 1
            \<and> DateFromTime (LocalTime e (UTC e ?noon)) = parseInt m2
            \<and> HourFromTime (LocalTime e (UTC e ?noon)) = 12 \<and> MinFromTime (LocalTime e (UTC e ?noon)) = 0
            \<and> SecFromTime (LocalTime e (UTC e ?noon)) = 0 \<and> msFromTime (LocalTime e (UTC e ?noon)) = 0"
    unfolding noon(2) using yy(1) mm noon_fields(2-5)[of day] by simp
  with res shape show ?thesis by blast
qed

text \<open>
  The base date \<open>12/17/25\<close> in the sample environment: 2025-12-17 at noon. The base date
  \<open>3/9/25\<close> in Havana, where the clocks go forward at local midnight of that day: local
  midnight does not exist, and the result is 2025-03-09 at noon.
\<close>

theorem slashDate_fields_witness:
  "test slashDate_rx ''12/17/25''
   \<and> groups3 ''12/17/25'' = (''12'', ''17'', ''25'')
   \<and> parseBaseDate' testEnv (Str ''12/17/25'') = Inr (Some 1765972800000)
   \<and> YearFromTime (LocalTime testEnv 1765972800000) = 2025
   \<and> MonthFromTime (LocalTime testEnv 1765972800000) = 11
   \<and> DateFromTime (LocalTime testEnv 1765972800000) = 17
   \<and> HourFromTime (LocalTime testEnv 1765972800000) = 12
   \<and> MinFromTime (LocalTime testEnv 1765972800000) = 0
   \<and> test slashDate_rx ''3/9/25''
   \<and> groups3 ''3/9/25'' = (''3'', ''9'', ''25'')
   \<and> \<not> localTimeExists havanaEnv (MakeDate (MakeDay 2025 2 9) (MakeTime 0 0 0 0))
   \<and> parseBaseDate' havanaEnv (Str ''3/9/25'') = Inr (Some 1741536000000)
   \<and> YearFromTime (LocalTime havanaEnv 1741536000000) = 2025
   \<and> MonthFromTime (LocalTime havanaEnv 1741536000000) = 2
   \<and> DateFromTime (LocalTime havanaEnv 1741536000000) = 9
   \<and> HourFromTime (LocalTime havanaEnv 1741536000000) = 12"
proof -
  have p: "parseInt ''12'' = 12" "parseInt ''17'' = 17" "parseInt ''25'' = 25"
      "parseInt ''3'' = 3" "parseInt ''9'' = 9"
    by code_simp+
  have yr: "(2025::int) = (if parseInt ''25'' < 100 then parseInt ''25'' + 2000 else parseInt ''25'')"
    by (simp add: p)
  have dim: "daysInMonth 2025 12 = 31" "daysInMonth 2025 3 = 31" by code_simp+
  \<comment> \<open>a zone without clock changes\<close>
  have mt: "test slashDate_rx ''12/17/25''" by code_simp
  have gr: "groups3 ''12/17/25'' = (''12'', ''17'', ''25'')" by code_simp
  have mo: "1 \<le> parseInt ''12''" "parseInt ''12'' \<le> 12" by (simp_all add: p)
  have da: "1 \<le> parseInt ''17''" "parseInt ''17'' \<le> daysInMonth 2025 (parseInt ''12'')"
    by (simp_all add: p dim)
  have z0: "resolvesToSameDay testEnv
      (MakeDate (MakeDay 2025 (parseInt ''12'' - 1) (parseInt ''17'')) (MakeTime 0 0 0 0))"
    by code_simp
  have z12: "localTimeExists testEnv
      (MakeDate (MakeDay 2025 (parseInt ''12'' - 1) (parseInt ''17'')) (MakeTime 12 0 0 0))"
    by code_simp
  have pb: "parseBaseDate' testEnv (Str ''12/17/25'') = Inr (Some 1765972800000)" by code_simp
  from slashDate_fields [OF mt gr yr mo da z0 z12]
  obtain t where t: "parseBaseDate' testEnv (Str ''12/17/25'') = Inr (Some t)"
      "YearFromTime (LocalTime testEnv t) = 2025"
      "MonthFromTime (LocalTime testEnv t) = parseInt ''12'' - 1"
      "DateFromTime (LocalTime testEnv t) = parseInt ''17''"
      "HourFromTime (LocalTime testEnv t) = 12" "MinFromTime (LocalTime testEnv t) = 0"
    by blast
  from t(1) pb have t': "t = 1765972800000" by simp
  \<comment> \<open>a zone whose clocks go forward at local midnight of the day\<close>
  have mt2: "test slashDate_rx ''3/9/25''" by code_simp
  have gr2: "groups3 ''3/9/25'' = (''3'', ''9'', ''25'')" by code_simp
  have mo2: "1 \<le> parseInt ''3''" "parseInt ''3'' \<le> 12" by (simp_all add: p)
  have da2: "1 \<le> parseInt ''9''" "parseInt ''9'' \<le> daysInMonth 2025 (parseInt ''3'')"
    by (simp_all add: p dim)
  have gap: "\<not> localTimeExists havanaEnv (MakeDate (MakeDay 2025 2 9) (MakeTime 0 0 0 0))"
    by code_simp
  have y0: "resolvesToSameDay havanaEnv
      (MakeDate (MakeDay 2025 (parseInt ''3'' - 1) (parseInt ''9'')) (MakeTime 0 0 0 0))"
    by code_simp
  have y12: "localTimeExists havanaEnv
      (MakeDate (MakeDay 2025 (parseInt ''3'' - 1) (parseInt ''9'')) (MakeTime 12 0 0 0))"
    by code_simp
  have pb2: "parseBaseDate' havanaEnv (Str ''3/9/25'') = Inr (Some 1741536000000)" by code_simp
  from slashDate_fields [OF mt2 gr2 yr mo2 da2 y0 y12]
  obtain u where u: "parseBaseDate' havanaEnv (Str ''3/9/25'') = Inr (Some u)"
      "YearFromTime (LocalTime havanaEnv u) = 2025"
      "MonthFromTime (LocalTime havanaEnv u) = parseInt ''3'' - 1"
      "DateFromTime (LocalTime havanaEnv u) = parseInt ''9''"
      "HourFromTime (LocalTime havanaEnv u) = 12"
    by blast
  from u(1) pb2 have u': "u = 1741536000000" by simp
  show ?thesis
    using t[unfolded t'] u[unfolded u'] mt gr pb mt2 gr2 pb2 gap p by simp
qed

text \<open>
  C3 as stated fails in three ways.

  \<^item> Groups that are not a date of the calendar: \<open>2/30/2025\<close> matches the pattern and the
    result is March 2, 2025 (month index 2, day 2), since the Date constructor rolls the
    thirtieth day of February over.
  \<^item> A local day that does not exist: in Samoa \<open>12/30/11\<close> is a date of the calendar and the
    result is on December 31, 2011.
  \<^item> A local noon that does not exist: where the clocks go from 12:00 to 13:00 on
    2025-12-17, the result for \<open>12/17/25\<close> is at 13:00 and the result for \<open>12/16/25\<close> is at
    12:00, so the hour is not the same on every day.
\<close>

theorem slashDate_rollover:
  "test slashDate_rx ''2/30/2025''
   \<and> groups3 ''2/30/2025'' = (''2'', ''30'', ''2025'')
   \<and> parseBaseDate' testEnv (Str ''2/30/2025'') = Inr (Some 1740916800000)
   \<and> YearFromTime (LocalTime testEnv 1740916800000) = 2025
   \<and> MonthFromTime (LocalTime testEnv 1740916800000) = 2
   \<and> DateFromTime (LocalTime testEnv 1740916800000) = 2
   \<and> MonthFromTime (LocalTime testEnv 1740916800000) \<noteq> parseInt ''2'' - 1
   \<and> DateFromTime (LocalTime testEnv 1740916800000) \<noteq> parseInt ''30''
   \<and> test slashDate_rx ''12/30/11''
   \<and> groups3 ''12/30/11'' = (''12'', ''30'', ''11'')
   \<and> 1 \<le> parseInt ''30'' \<and> parseInt ''30'' \<le> daysInMonth 2011 (parseInt ''12'')
   \<and> parseBaseDate' samoaEnv (Str ''12/30/11'') = Inr (Some 1325282400000)
   \<and> YearFromTime (LocalTime samoaEnv 1325282400000) = 2011
   \<and> MonthFromTime (LocalTime samoaEnv 1325282400000) = 11
   \<and> DateFromTime (LocalTime samoaEnv 1325282400000) = 31
   \<and> DateFromTime (LocalTime samoaEnv 1325282400000) \<noteq> parseInt ''30''
   \<and> test slashDate_rx ''12/17/25''
   \<and> groups3 ''12/17/25'' = (''12'', ''17'', ''25'')
   \<and> parseBaseDate' noonGapEnv (Str ''12/17/25'') = Inr (Some 1765972800000)
   \<and> DateFromTime (LocalTime noonGapEnv 1765972800000) = 17
   \<and> HourFromTime (LocalTime noonGapEnv 1765972800000) = 13
   \<and> test slashDate_rx ''12/16/25''
   \<and> parseBaseDate' noonGapEnv (Str ''12/16/25'') = Inr (Some 1765886400000)
   \<and> DateFromTime (LocalTime noonGapEnv 1765886400000) = 16
   \<and> HourFromTime (LocalTime noonGapEnv 1765886400000) = 12"
proof -
  have a: "test slashDate_rx ''2/30/2025''" by code_simp
  have b: "groups3 ''2/30/2025'' = (''2'', ''30'', ''2025'')" by code_simp
  have c: "parseBaseDate' testEnv (Str ''2/30/2025'') = Inr (Some 1740916800000)" by code_simp
  have d: "YearFromTime (LocalTime testEnv 1740916800000) = 2025" by code_simp
  have f: "MonthFromTime (LocalTime testEnv 1740916800000) = 2" by code_simp
  have g: "DateFromTime (LocalTime testEnv 1740916800000) = 2" by code_simp
  have h: "parseInt ''2'' = 2" "parseInt ''30'' = 30" "parseInt ''12'' = 12" by code_simp+
  have sa: "test slashDate_rx ''12/30/11''" by code_simp
  have sb: "groups3 ''12/30/11'' = (''12'', ''30'', ''11'')" by code_simp
  have sc: "daysInMonth 2011 12 = 31" by code_simp
  have sd: "parseBaseDate' samoaEnv (Str ''12/30/11'') = Inr (Some 1325282400000)" by code_simp
  have sy: "YearFromTime (LocalTime samoaEnv 1325282400000) = 2011" by code_simp
  have se: "MonthFromTime (LocalTime samoaEnv 1325282400000) = 11" by code_simp
  have sf: "DateFromTime (LocalTime samoaEnv 1325282400000) = 31" by code_simp
  have na: "test slashDate_rx ''12/17/25''" by code_simp
  have nb: "groups3 ''12/17/25'' = (''12'', ''17'', ''25'')" by code_simp
  have nc: "parseBaseDate' noonGapEnv (Str ''12/17/25'') = Inr (Some 1765972800000)" by code_simp
  have nd: "DateFromTime (LocalTime noonGapEnv 1765972800000) = 17" by code_simp
  have ne: "HourFromTime (LocalTime noonGapEnv 1765972800000) = 13" by code_simp
  have oa: "test slashDate_rx ''12/16/25''" by code_simp
  have oc: "parseBaseDate' noonGapEnv (Str ''12/16/25'') = Inr (Some 1765886400000)" by code_simp
  have od: "DateFromTime (LocalTime noonGapEnv 1765886400000) = 16" by code_simp
  have oe: "HourFromTime (LocalTime noonGapEnv 1765886400000) = 12" by code_simp
  show ?thesis
    using a b c d f g h sa sb sc sd sy se sf na nb nc nd ne oa oc od oe by simp
qed

text \<open>The older variant returns local midnight of the day, not noon.\<close>

lemma variant_pins_midnight:
  "parseBaseDate_midnight' testEnv (Str ''12/17/25'') = Inr (Some 1765929600000)
   \<and> HourFromTime (LocalTime testEnv 1765929600000) = 0"
  by code_simp

end
